theory Spec2Isabelle
  imports Complex_Main "HOL-Library.Char_ord" "HOL-Library.List_Lexorder" "HOL-Library.Sublist"
begin

section \<open>The pizza sales dashboard: data model\<close>

text \<open>
  The program is a Streamlit script, \<^verbatim>\<open>pizza_sales_app.py\<close>, over one pandas DataFrame
  read from a CSV file. This theory embeds the part of it that computes: the category
  filter, the grouped sums, the four metrics, the time series and the comparison view,
  together with the two page functions \<^verbatim>\<open>data_visualization\<close> and \<^verbatim>\<open>data_analysis\<close> that
  compose them.

  A row of the DataFrame is an order line item with the six columns the script reads.
  A price is the number its cell holds: pandas keeps the price columns as \<^verbatim>\<open>float64\<close> (or
  \<^verbatim>\<open>int64\<close>, when every cell of the column is a whole number), and every finite value of
  these types is a rational number, so the cells are of type \<open>rat\<close> and are compared
  exactly. What is not exact is the arithmetic on them; it is a parameter of the model (see
  below). A date is a \<^verbatim>\<open>datetime64\<close> value, i.e. an integer count on the time axis, and
  strings are compared lexicographically by character code, as Python compares \<^verbatim>\<open>str\<close>
  values. Every cell of a row is present and finite: missing cells (\<^verbatim>\<open>NaN\<close>) and
  infinities inside a column are outside this model.
\<close>

type_synonym timestamp = int

record order_line_item =
  pizza_category :: string
  pizza_name :: string
  pizza_size :: string
  unit_price :: rat
  total_price :: rat
  order_date :: timestamp

text \<open>
  A DataFrame carries its column labels and its rows. A column that is not listed in
  \<open>columns\<close> does not exist in the frame: every access below goes through the label
  first and raises \<^verbatim>\<open>KeyError\<close> when the label is absent, so the corresponding record
  field of the rows is never read.
\<close>

record frame =
  columns :: "string list"
  rows :: "order_line_item list"

text \<open>The exceptions the script can raise, and a float result that may be \<^verbatim>\<open>NaN\<close>.\<close>

datatype py_error = KeyError string | ValueError | NameError

datatype number = NaN | Val rat

definition and_then :: "py_error + 'a \<Rightarrow> ('a \<Rightarrow> py_error + 'b) \<Rightarrow> py_error + 'b" where
  "and_then r f = (case r of Inl e \<Rightarrow> Inl e | Inr x \<Rightarrow> f x)"

section \<open>Machine arithmetic\<close>

text \<open>
  The script adds prices in three places, each time through a reduction of the library:
  \<^verbatim>\<open>Series.sum\<close> (line 138), the grouped \<^verbatim>\<open>sum\<close> (lines 87, 92, 99, 140, 141, 157) and
  \<^verbatim>\<open>Series.mean\<close> (line 139). On \<^verbatim>\<open>float64\<close> columns every addition rounds, the result
  depends on the order of the additions, and on \<^verbatim>\<open>int64\<close> columns a sum wraps around. The
  three reductions, applied to the values of a non-empty column or group in frame order,
  are therefore the fields of a record, and every definition and theorem below that
  involves a sum takes such a record. Nothing is assumed of the reductions.
\<close>

record arith =
  sum_reduce :: "rat list \<Rightarrow> rat"
  group_reduce :: "rat list \<Rightarrow> rat"
  mean_reduce :: "rat list \<Rightarrow> rat"

text \<open>Exact arithmetic: what the reductions would be on decimal numbers.\<close>

definition exact_arith :: arith where
  "exact_arith =
     \<lparr>sum_reduce = sum_list, group_reduce = sum_list,
      mean_reduce = (\<lambda>xs. sum_list xs / of_nat (length xs))\<rparr>"

text \<open>
  The arithmetic of \<^verbatim>\<open>float64\<close>. \<open>round64\<close> rounds a rational number to the nearest number
  with a 53-bit significand, ties to the even significand; this is the value of an IEEE
  754 binary64 operation whose exact result is the argument, as long as the result is in
  the range of the normal numbers (prices are). \<open>bit_length p\<close> is the number of binary
  digits of \<open>p\<close>, and \<open>exponent x\<close> is the integer \<open>e\<close> with \<open>pow2 e \<le> \<bar>x\<bar> < pow2 (e + 1)\<close>.
\<close>

function bit_length :: "int \<Rightarrow> int" where
  "bit_length p = (if p \<le> 0 then 0 else 1 + bit_length (p div 2))"
  by pat_completeness auto
termination
  by (relation "measure nat") auto

declare bit_length.simps [simp del]

definition pow2 :: "int \<Rightarrow> rat" where
  "pow2 k = (if 0 \<le> k then 2 ^ nat k else 1 / 2 ^ nat (- k))"

definition exponent :: "rat \<Rightarrow> int" where
  "exponent x =
     (let (p, q) = quotient_of \<bar>x\<bar>;
          k = bit_length p - bit_length q
      in if pow2 k \<le> \<bar>x\<bar> then k else k - 1)"

definition round_even :: "rat \<Rightarrow> int" where
  "round_even x =
     (let f = \<lfloor>x\<rfloor>; d = x - of_int f
      in if d < 1 / 2 then f else if 1 / 2 < d then f + 1 else if even f then f else f + 1)"

definition round64 :: "rat \<Rightarrow> rat" where
  "round64 x =
     (if x = 0 then 0
      else let s = pow2 (exponent x - 52) in of_int (round_even (x / s)) * s)"

text \<open>
  \<^verbatim>\<open>Series.sum\<close> adds the values from left to right, starting from 0 (numpy does so for
  columns of fewer than eight values, and in a blocked pairwise order for longer ones; the
  examples below are short). The grouped sum adds the values of a group from left to right
  with Kahan's compensation, as pandas' \<^verbatim>\<open>group_sum\<close> does. The mean is the sum divided
  by the count.
\<close>

definition float_sum :: "rat list \<Rightarrow> rat" where
  "float_sum xs = fold (\<lambda>x acc. round64 (acc + x)) xs 0"

fun kahan :: "rat \<Rightarrow> rat \<Rightarrow> rat list \<Rightarrow> rat" where
  "kahan s c [] = s"
| "kahan s c (x # xs) =
     (let y = round64 (x - c); t = round64 (s + y)
      in kahan t (round64 (round64 (t - s) - y)) xs)"

definition float64 :: arith where
  "float64 =
     \<lparr>sum_reduce = float_sum, group_reduce = kahan 0 0,
      mean_reduce = (\<lambda>xs. round64 (float_sum xs / of_nat (length xs)))\<rparr>"

section \<open>The pandas operations the script calls\<close>

text \<open>\<^verbatim>\<open>df[c]\<close>: the column labelled \<open>c\<close> as a Series, or \<^verbatim>\<open>KeyError\<close>.\<close>

definition getitem :: "frame \<Rightarrow> string \<Rightarrow> (order_line_item \<Rightarrow> 'a) \<Rightarrow> py_error + 'a list" where
  "getitem df c fld = (if c \<in> set (columns df) then Inr (map fld (rows df)) else Inl (KeyError c))"

text \<open>
  \<^verbatim>\<open>series == value\<close> and \<^verbatim>\<open>series.isin(values)\<close>: element-wise boolean masks. The compared
  value is what \<^verbatim>\<open>st.selectbox\<close> returned, which is \<^verbatim>\<open>None\<close> when it had no option to offer.
\<close>

definition series_eq :: "'a list \<Rightarrow> 'a option \<Rightarrow> bool list" where
  "series_eq s v = map (\<lambda>x. Some x = v) s"

definition isin :: "'a list \<Rightarrow> 'a list \<Rightarrow> bool list" where
  "isin s vs = map (\<lambda>x. x \<in> set vs) s"

text \<open>
  \<^verbatim>\<open>df[mask]\<close>: boolean indexing. The result is a new frame with the same columns, holding
  the rows at the positions where the mask is true, in their order.
\<close>

definition getitem_mask :: "frame \<Rightarrow> bool list \<Rightarrow> frame" where
  "getitem_mask df m = df\<lparr>rows := map fst (filter snd (zip (rows df) m))\<rparr>"

text \<open>
  \<^verbatim>\<open>pd.to_datetime\<close> on a column that already holds \<^verbatim>\<open>datetime64\<close> values returns the same
  values; parsing dates out of text belongs to the CSV reader and is not modelled.
  \<^verbatim>\<open>df['order_date'] = values\<close> replaces the column, or appends it when it is new.
\<close>

definition to_datetime :: "timestamp list \<Rightarrow> timestamp list" where
  "to_datetime s = s"

definition setitem_order_date :: "frame \<Rightarrow> timestamp list \<Rightarrow> frame" where
  "setitem_order_date df vals =
     \<lparr>columns = (if ''order_date'' \<in> set (columns df) then columns df
                 else columns df @ [''order_date'']),
      rows = map (\<lambda>(r, v). r\<lparr>order_date := v\<rparr>) (zip (rows df) vals)\<rparr>"

text \<open>
  \<^verbatim>\<open>np.unique\<close> returns the sorted distinct values; \<^verbatim>\<open>Series.unique\<close> returns the distinct
  values in order of first appearance.
\<close>

definition np_unique :: "'a::linorder list \<Rightarrow> 'a list" where
  "np_unique xs = sort (remdups xs)"

fun unique :: "'a list \<Rightarrow> 'a list" where
  "unique [] = []"
| "unique (x # xs) = x # unique (filter (\<lambda>y. y \<noteq> x) xs)"

text \<open>
  \<^verbatim>\<open>df.groupby(by)\<close> with pandas' defaults (\<^verbatim>\<open>sort=True\<close>): the rows are distributed over
  groups, one per distinct key, each group keeping its rows in frame order, and the groups
  are ordered by ascending key. The grouping is computed by one pass over the rows that
  files each row under its key in a key-ordered list of groups.
\<close>

fun add_group :: "'k::linorder \<Rightarrow> 'v \<Rightarrow> ('k \<times> 'v list) list \<Rightarrow> ('k \<times> 'v list) list" where
  "add_group k v [] = [(k, [v])]"
| "add_group k v ((k', vs) # gs) =
     (if k = k' then (k', vs @ [v]) # gs
      else if k < k' then (k, [v]) # (k', vs) # gs
      else (k', vs) # add_group k v gs)"

definition groups_of :: "(order_line_item \<Rightarrow> 'k::linorder) \<Rightarrow> order_line_item list
    \<Rightarrow> ('k \<times> order_line_item list) list" where
  "groups_of key rs = fold (\<lambda>r. add_group (key r) r) rs []"

definition groupby :: "frame \<Rightarrow> string \<Rightarrow> (order_line_item \<Rightarrow> 'k::linorder)
    \<Rightarrow> py_error + (string list \<times> ('k \<times> order_line_item list) list)" where
  "groupby df by key =
     (if by \<in> set (columns df) then Inr (columns df, groups_of key (rows df))
      else Inl (KeyError by))"

text \<open>
  \<^verbatim>\<open>.agg({col: op})\<close> and \<^verbatim>\<open>[col].op()\<close> on a grouped frame: one entry per group, the
  operation applied to the group's values of the column; \<^verbatim>\<open>KeyError\<close> when the column
  is absent (the error is modelled by the label it is about, whatever the wording of its
  message). \<^verbatim>\<open>reset_index()\<close> keeps the entries and their order.
\<close>

definition agg :: "string list \<times> ('k \<times> order_line_item list) list \<Rightarrow> string
    \<Rightarrow> (order_line_item \<Rightarrow> rat) \<Rightarrow> (rat list \<Rightarrow> 'r) \<Rightarrow> py_error + ('k \<times> 'r) list" where
  "agg g col fld oper =
     (if col \<in> set (fst g) then Inr (map (\<lambda>(k, rs). (k, oper (map fld rs))) (snd g))
      else Inl (KeyError col))"

text \<open>
  Reductions of a Series. \<^verbatim>\<open>sum\<close> of no values is 0 and \<^verbatim>\<open>mean\<close> of no values is \<^verbatim>\<open>NaN\<close>;
  of some values they are what the arithmetic makes of them. \<^verbatim>\<open>max\<close> of no values is
  \<^verbatim>\<open>NaN\<close>, and otherwise the greatest value (comparisons are exact). \<^verbatim>\<open>idxmax\<close> of no values
  raises \<^verbatim>\<open>ValueError\<close>, and otherwise returns the label of the first position that holds
  the maximum. A group is never empty, so the grouped sum is the reduction itself.
\<close>

definition series_sum :: "arith \<Rightarrow> rat list \<Rightarrow> rat" where
  "series_sum A xs = (if xs = [] then 0 else sum_reduce A xs)"

definition series_mean :: "arith \<Rightarrow> rat list \<Rightarrow> number" where
  "series_mean A xs = (if xs = [] then NaN else Val (mean_reduce A xs))"

definition series_max :: "rat list \<Rightarrow> number" where
  "series_max xs = (case xs of [] \<Rightarrow> NaN | x # ys \<Rightarrow> Val (fold max ys x))"

fun argmax_scan :: "'k \<times> rat \<Rightarrow> ('k \<times> rat) list \<Rightarrow> 'k \<times> rat" where
  "argmax_scan best [] = best"
| "argmax_scan best (x # xs) = argmax_scan (if snd best < snd x then x else best) xs"

definition idxmax :: "('k \<times> rat) list \<Rightarrow> py_error + 'k" where
  "idxmax s = (case s of [] \<Rightarrow> Inl ValueError | x # xs \<Rightarrow> Inr (fst (argmax_scan x xs)))"

section \<open>The Streamlit widgets that return a value\<close>

text \<open>
  \<^verbatim>\<open>st.selectbox\<close> returns one of its options, the first one unless the user picked
  another, and \<^verbatim>\<open>None\<close> when there is no option. \<^verbatim>\<open>st.multiselect\<close> returns the options the
  user picked. The user's picks are positions in the option list.
\<close>

definition selectbox :: "'a list \<Rightarrow> nat \<Rightarrow> 'a option" where
  "selectbox options i =
     (case options of [] \<Rightarrow> None
      | x # _ \<Rightarrow> Some (if i < length options then options ! i else x))"

definition multiselect :: "'a list \<Rightarrow> nat list \<Rightarrow> 'a list" where
  "multiselect options picks = map (\<lambda>i. options ! i) (filter (\<lambda>i. i < length options) picks)"

record ui =
  category_pick :: nat
  show_data_table :: bool
  compare_picks :: "nat list"

section \<open>The derived tables and metrics, line by line\<close>

text \<open>Lines 87, 92 and 99 of \<^verbatim>\<open>data_visualization\<close>, line 157 of \<^verbatim>\<open>data_analysis\<close>.\<close>

definition total_sales_by_pizza :: "arith \<Rightarrow> frame \<Rightarrow> py_error + (string \<times> rat) list" where
  "total_sales_by_pizza A filtered_data =
     and_then (groupby filtered_data ''pizza_name'' pizza_name)
       (\<lambda>g. agg g ''total_price'' total_price (group_reduce A))"

definition sales_by_size :: "arith \<Rightarrow> frame \<Rightarrow> py_error + (string \<times> rat) list" where
  "sales_by_size A filtered_data =
     and_then (groupby filtered_data ''pizza_size'' pizza_size)
       (\<lambda>g. agg g ''total_price'' total_price (group_reduce A))"

definition sales_over_time :: "arith \<Rightarrow> frame \<Rightarrow> py_error + (timestamp \<times> rat) list" where
  "sales_over_time A filtered_data =
     and_then (groupby filtered_data ''order_date'' order_date)
       (\<lambda>g. agg g ''total_price'' total_price (group_reduce A))"

text \<open>Lines 138 to 141 of \<^verbatim>\<open>data_analysis\<close>: the four metrics.\<close>

definition total_sales :: "arith \<Rightarrow> frame \<Rightarrow> py_error + rat" where
  "total_sales A filtered_data =
     and_then (getitem filtered_data ''total_price'' total_price) (\<lambda>s. Inr (series_sum A s))"

definition average_price :: "arith \<Rightarrow> frame \<Rightarrow> py_error + number" where
  "average_price A filtered_data =
     and_then (getitem filtered_data ''unit_price'' unit_price) (\<lambda>s. Inr (series_mean A s))"

definition top_selling_pizza :: "arith \<Rightarrow> frame \<Rightarrow> py_error + string" where
  "top_selling_pizza A filtered_data =
     and_then (groupby filtered_data ''pizza_name'' pizza_name)
       (\<lambda>g. and_then (agg g ''total_price'' total_price (group_reduce A)) idxmax)"

definition top_pizza_sales :: "arith \<Rightarrow> frame \<Rightarrow> py_error + number" where
  "top_pizza_sales A filtered_data =
     and_then (groupby filtered_data ''pizza_name'' pizza_name)
       (\<lambda>g. and_then (agg g ''total_price'' total_price (group_reduce A))
          (\<lambda>s. Inr (series_max (map snd s))))"

text \<open>
  Lines 84 and 135: \<^verbatim>\<open>data[data['pizza_category'] == v]\<close>, and line 165:
  \<^verbatim>\<open>data[data['pizza_name'].isin(compare)]\<close>.
\<close>

definition filter_category :: "frame \<Rightarrow> string option \<Rightarrow> py_error + frame" where
  "filter_category df v =
     and_then (getitem df ''pizza_category'' pizza_category)
       (\<lambda>s. Inr (getitem_mask df (series_eq s v)))"

definition filter_isin :: "frame \<Rightarrow> string list \<Rightarrow> py_error + frame" where
  "filter_isin df compare =
     and_then (getitem df ''pizza_name'' pizza_name)
       (\<lambda>s. Inr (getitem_mask df (isin s compare)))"

section \<open>Objects, references and the page functions\<close>

text \<open>
  A DataFrame is an object: the script's variables hold references to frames, and
  \<^verbatim>\<open>filtered_data['order_date'] = ...\<close> updates the object its variable refers to. The heap is
  the list of the frames created so far, a reference is a position in it. The module-level
  variable \<^verbatim>\<open>data\<close> refers to the first object, the frame that \<^verbatim>\<open>load_data\<close> returned.
  Boolean indexing builds a new object and never shares the rows of its source.

  A statement of the script is a function from the heap to a result and the heap after it;
  an exception ends the page function and leaves the heap as it was when it was raised.
\<close>

type_synonym heap = "frame list"

type_synonym 'a prog = "heap \<Rightarrow> (py_error + 'a) \<times> heap"

definition pure :: "'a \<Rightarrow> 'a prog" where
  "pure x h = (Inr x, h)"

definition lift :: "py_error + 'a \<Rightarrow> 'a prog" where
  "lift r h = (r, h)"

definition step :: "'a prog \<Rightarrow> ('a \<Rightarrow> 'b prog) \<Rightarrow> 'b prog" where
  "step m f h = (case m h of (Inl e, h') \<Rightarrow> (Inl e, h') | (Inr x, h') \<Rightarrow> f x h')"

definition deref :: "nat \<Rightarrow> frame prog" where
  "deref a h = (if a < length h then (Inr (h ! a), h) else (Inl NameError, h))"

definition alloc :: "frame \<Rightarrow> nat prog" where
  "alloc df h = (Inr (length h), h @ [df])"

definition assign :: "nat \<Rightarrow> frame \<Rightarrow> unit prog" where
  "assign a df h = (if a < length h then (Inr (), h[a := df]) else (Inl NameError, h))"

definition data :: nat where
  "data = 0"

text \<open>
  \<^verbatim>\<open>load_data\<close> (lines 9 to 14) receives what \<^verbatim>\<open>pd.read_csv\<close> returned, and line 16 binds
  \<^verbatim>\<open>data\<close> to its result.
\<close>

definition load_data :: "frame \<Rightarrow> frame" where
  "load_data csv =
     (if ''order_date'' \<in> set (columns csv)
      then setitem_order_date csv (to_datetime (map order_date (rows csv)))
      else csv)"

definition startup :: "frame \<Rightarrow> heap" where
  "startup csv = [load_data csv]"

text \<open>
  Lines 97 to 99 of \<^verbatim>\<open>data_visualization\<close> and lines 154 to 157 of \<^verbatim>\<open>data_analysis\<close>: when
  \<^verbatim>\<open>data\<close> has an \<^verbatim>\<open>order_date\<close> column, the column of the filtered frame is converted in
  place and the daily totals are computed; otherwise the block is skipped.
\<close>

definition time_series :: "arith \<Rightarrow> nat \<Rightarrow> (timestamp \<times> rat) list option prog" where
  "time_series A filtered_data =
     step (deref data) (\<lambda>d.
       if ''order_date'' \<in> set (columns d) then
         step (deref filtered_data) (\<lambda>fd.
         step (lift (getitem fd ''order_date'' order_date)) (\<lambda>dates.
         step (assign filtered_data (setitem_order_date fd (to_datetime dates))) (\<lambda>_.
         step (deref filtered_data) (\<lambda>fd'.
         step (lift (sales_over_time A fd')) (\<lambda>s.
         pure (Some s))))))
       else pure None)"

text \<open>\<^verbatim>\<open>data_visualization\<close>, lines 60 to 121. The record holds what the page hands to
  the chart, table and download widgets.\<close>

record visualization =
  fig_bar :: "(string \<times> rat) list"
  fig_pie :: "(string \<times> rat) list"
  fig_line :: "(timestamp \<times> rat) list option"
  dataframe :: "frame option"
  download_filtered :: frame

definition data_visualization :: "arith \<Rightarrow> ui \<Rightarrow> visualization prog" where
  "data_visualization A u =
     step (deref data) (\<lambda>d.
     step (lift (getitem d ''pizza_category'' pizza_category)) (\<lambda>categories.
     step (lift (filter_category d (selectbox (np_unique categories) (category_pick u)))) (\<lambda>view.
     step (alloc view) (\<lambda>filtered_data.
     step (deref filtered_data) (\<lambda>fd.
     step (lift (total_sales_by_pizza A fd)) (\<lambda>bar.
     step (lift (sales_by_size A fd)) (\<lambda>pie.
     step (time_series A filtered_data) (\<lambda>line.
     step (deref filtered_data) (\<lambda>fd'.
     pure \<lparr>fig_bar = bar, fig_pie = pie, fig_line = line,
           dataframe = (if show_data_table u then Some fd' else None),
           download_filtered = fd'\<rparr>)))))))))"

text \<open>
  Lines 163 to 168 of \<^verbatim>\<open>data_analysis\<close>: the comparison of the pizzas picked in the
  multiselect. \<^verbatim>\<open>px.bar\<close> raises \<^verbatim>\<open>ValueError\<close> when a column it is asked to plot is absent.
\<close>

definition px_bar :: "frame \<Rightarrow> string \<Rightarrow> string \<Rightarrow> py_error + frame" where
  "px_bar df x y = (if x \<in> set (columns df) \<and> y \<in> set (columns df) then Inr df else Inl ValueError)"

definition comparative_analysis :: "ui \<Rightarrow> frame option prog" where
  "comparative_analysis u =
     step (deref data) (\<lambda>d.
     step (lift (getitem d ''pizza_name'' pizza_name)) (\<lambda>names.
     let compare = multiselect (unique names) (compare_picks u) in
     if compare \<noteq> [] then
       step (lift (filter_isin d compare)) (\<lambda>view.
       step (alloc view) (\<lambda>comparison_data.
       step (deref comparison_data) (\<lambda>cd.
       step (lift (px_bar cd ''pizza_name'' ''total_price'')) (\<lambda>fig.
       pure (Some fig)))))
     else pure None))"

text \<open>\<^verbatim>\<open>data_analysis\<close>, lines 123 to 185.\<close>

record analysis =
  metric_total_sales :: rat
  metric_average_price :: number
  metric_top_selling_pizza :: string
  metric_top_pizza_sales :: number
  fig_time_series :: "(timestamp \<times> rat) list option"
  fig_compare :: "frame option"
  download_data :: frame

definition data_analysis :: "arith \<Rightarrow> ui \<Rightarrow> analysis prog" where
  "data_analysis A u =
     step (deref data) (\<lambda>d.
     step (lift (getitem d ''pizza_category'' pizza_category)) (\<lambda>categories.
     step (lift (filter_category d (selectbox (np_unique categories) (category_pick u)))) (\<lambda>view.
     step (alloc view) (\<lambda>filtered_data.
     step (deref filtered_data) (\<lambda>fd.
     step (lift (total_sales A fd)) (\<lambda>ts.
     step (lift (average_price A fd)) (\<lambda>ap.
     step (lift (top_selling_pizza A fd)) (\<lambda>top.
     step (lift (top_pizza_sales A fd)) (\<lambda>tps.
     step (time_series A filtered_data) (\<lambda>time_data.
     step (comparative_analysis u) (\<lambda>cmp.
     step (deref filtered_data) (\<lambda>fd'.
     pure \<lparr>metric_total_sales = ts, metric_average_price = ap,
           metric_top_selling_pizza = top, metric_top_pizza_sales = tps,
           fig_time_series = time_data, fig_compare = cmp,
           download_data = fd'\<rparr>))))))))))))"

text \<open>
  Lines 187 to 196: the sidebar chooses the page the script runs. The home page shows
  static text and an image and touches no frame. A session is a sequence of such runs.
\<close>

datatype page = Home | Data_Visualization | Data_Analysis

definition render :: "arith \<Rightarrow> page \<Rightarrow> ui \<Rightarrow> heap \<Rightarrow> heap" where
  "render A p u h =
     (case p of Home \<Rightarrow> h
      | Data_Visualization \<Rightarrow> snd (data_visualization A u h)
      | Data_Analysis \<Rightarrow> snd (data_analysis A u h))"

definition run :: "arith \<Rightarrow> (page \<times> ui) list \<Rightarrow> heap \<Rightarrow> heap" where
  "run A events h = fold (\<lambda>(p, u). render A p u) events h"

section \<open>A small dataset\<close>

text \<open>Three order lines, two of one pizza on consecutive days and one of another.\<close>

definition schema :: "string list" where
  "schema = [''pizza_category'', ''pizza_name'', ''pizza_size'', ''unit_price'',
             ''total_price'', ''order_date'']"

definition sample_rows :: "order_line_item list" where
  "sample_rows =
     [\<lparr>pizza_category = ''Classic'', pizza_name = ''Margherita'', pizza_size = ''M'',
       unit_price = 10, total_price = 20, order_date = 19358\<rparr>,
      \<lparr>pizza_category = ''Veggie'', pizza_name = ''Veggie Supreme'', pizza_size = ''L'',
       unit_price = 15, total_price = 15, order_date = 19358\<rparr>,
      \<lparr>pizza_category = ''Classic'', pizza_name = ''Margherita'', pizza_size = ''M'',
       unit_price = 10, total_price = 10, order_date = 19359\<rparr>]"

definition sample :: frame where
  "sample = \<lparr>columns = schema, rows = sample_rows\<rparr>"

definition classic :: frame where
  "classic = \<lparr>columns = schema, rows = [sample_rows ! 0, sample_rows ! 2]\<rparr>"

definition default_ui :: ui where
  "default_ui = \<lparr>category_pick = 0, show_data_table = False, compare_picks = []\<rparr>"

text \<open>
  The grouped sum of \<open>total_price\<close> over the rows of one pizza name, in frame order: the
  quantity by which the pizzas of a view are ranked. And the first of a list of column
  labels that a frame lacks.
\<close>

definition sales_of :: "arith \<Rightarrow> frame \<Rightarrow> string \<Rightarrow> rat" where
  "sales_of A view n =
     group_reduce A (map total_price (filter (\<lambda>r. pizza_name r = n) (rows view)))"

definition first_missing :: "string list \<Rightarrow> frame \<Rightarrow> string option" where
  "first_missing cs df = find (\<lambda>c. c \<notin> set (columns df)) cs"

text \<open>
  A frame is a projection of another when it has the same columns and its rows are rows
  of the other, in the same order.
\<close>

definition projection :: "frame \<Rightarrow> frame \<Rightarrow> bool" where
  "projection d v \<longleftrightarrow> columns v = columns d \<and> subseq (rows v) (rows d)"

text \<open>
  Further datasets: one in which two pizzas have the same total and the frame lists the
  lexicographically later one first, one without rows, one without the \<open>order_date\<close>
  column and one without the \<open>pizza_size\<close> column.
\<close>

definition tied :: frame where
  "tied = \<lparr>columns = schema, rows =
     [\<lparr>pizza_category = ''Veggie'', pizza_name = ''Veggie Supreme'', pizza_size = ''L'',
       unit_price = 15, total_price = 15, order_date = 19359\<rparr>,
      \<lparr>pizza_category = ''Classic'', pizza_name = ''Margherita'', pizza_size = ''M'',
       unit_price = 10, total_price = 10, order_date = 19359\<rparr>,
      \<lparr>pizza_category = ''Classic'', pizza_name = ''Margherita'', pizza_size = ''S'',
       unit_price = 5, total_price = 5, order_date = 19358\<rparr>]\<rparr>"

definition empty_csv :: frame where
  "empty_csv = \<lparr>columns = schema, rows = []\<rparr>"

definition no_date :: frame where
  "no_date = \<lparr>columns = [''pizza_category'', ''pizza_name'', ''pizza_size'', ''unit_price'',
      ''total_price''], rows = sample_rows\<rparr>"

definition no_size :: frame where
  "no_size = \<lparr>columns = [''pizza_category'', ''pizza_name'', ''unit_price'',
      ''total_price'', ''order_date''], rows = sample_rows\<rparr>"

text \<open>
  \<^verbatim>\<open>pd.read_csv\<close> (line 10) stores a cell of a \<^verbatim>\<open>float64\<close> column as the \<^verbatim>\<open>float64\<close> value nearest
  to the decimal number written in the file. The frames of this theory are frames as
  read; \<open>read_csv\<close> gives the frame read from cells that are written in decimal.
\<close>

definition read_csv :: "frame \<Rightarrow> frame" where
  "read_csv cells =
     cells\<lparr>rows := map (\<lambda>r. r\<lparr>unit_price := round64 (unit_price r),
                                 total_price := round64 (total_price r)\<rparr>) (rows cells)\<rparr>"

text \<open>
  Cells in decimal: a pizza \<open>A\<close> sold once for 0.3 and a pizza \<open>B\<close> sold for 0.1 and for 0.2;
  a pizza \<open>A\<close> sold for 1 and a pizza \<open>B\<close> sold for 1 and for 2 to the power -53 (these three are
  \<^verbatim>\<open>float64\<close> values already); and three sales of 14.5, 23.65 and 17.95 in the sizes
  \<open>L\<close>, \<open>M\<close> and \<open>L\<close>.
\<close>

definition tie_cells :: frame where
  "tie_cells = \<lparr>columns = schema, rows =
     [\<lparr>pizza_category = ''Classic'', pizza_name = ''A'', pizza_size = ''M'',
       unit_price = 3 / 10, total_price = 3 / 10, order_date = 19358\<rparr>,
      \<lparr>pizza_category = ''Classic'', pizza_name = ''B'', pizza_size = ''M'',
       unit_price = 1 / 10, total_price = 1 / 10, order_date = 19358\<rparr>,
      \<lparr>pizza_category = ''Classic'', pizza_name = ''B'', pizza_size = ''M'',
       unit_price = 2 / 10, total_price = 2 / 10, order_date = 19358\<rparr>]\<rparr>"

definition ulp_cells :: frame where
  "ulp_cells = \<lparr>columns = schema, rows =
     [\<lparr>pizza_category = ''Classic'', pizza_name = ''A'', pizza_size = ''M'',
       unit_price = 1, total_price = 1, order_date = 19358\<rparr>,
      \<lparr>pizza_category = ''Classic'', pizza_name = ''B'', pizza_size = ''M'',
       unit_price = 1, total_price = 1, order_date = 19358\<rparr>,
      \<lparr>pizza_category = ''Classic'', pizza_name = ''B'', pizza_size = ''M'',
       unit_price = 1 / 2 ^ 53, total_price = 1 / 2 ^ 53, order_date = 19358\<rparr>]\<rparr>"

definition menu_cells :: frame where
  "menu_cells = \<lparr>columns = schema, rows =
     [\<lparr>pizza_category = ''Classic'', pizza_name = ''Margherita'', pizza_size = ''L'',
       unit_price = 29 / 2, total_price = 29 / 2, order_date = 19358\<rparr>,
      \<lparr>pizza_category = ''Classic'', pizza_name = ''Hawaiian'', pizza_size = ''M'',
       unit_price = 473 / 20, total_price = 473 / 20, order_date = 19358\<rparr>,
      \<lparr>pizza_category = ''Classic'', pizza_name = ''Pepperoni'', pizza_size = ''L'',
       unit_price = 359 / 20, total_price = 359 / 20, order_date = 19358\<rparr>]\<rparr>"

section \<open>Lemmas: the filters\<close>

lemma mask_rows:
  "map fst (filter snd (zip rs (map P rs))) = filter P rs"
  by (induction rs) simp_all

lemma rows_filter_category:
  "''pizza_category'' \<in> set (columns df) \<Longrightarrow>
   filter_category df v = Inr (df\<lparr>rows := filter (\<lambda>r. Some (pizza_category r) = v) (rows df)\<rparr>)"
  by (simp add: filter_category_def and_then_def getitem_def getitem_mask_def series_eq_def
      mask_rows comp_def)

section \<open>Lemmas: grouping\<close>

lemma groups_of_snoc: "groups_of key (rs @ [r]) = add_group (key r) r (groups_of key rs)"
  by (simp add: groups_of_def)

lemma add_group_keys: "fst ` set (add_group k v gs) = insert k (fst ` set gs)"
  by (induction k v gs rule: add_group.induct) (simp_all add: insert_commute)

lemma add_group_sorted:
  "sorted_wrt (<) (map fst gs) \<Longrightarrow> sorted_wrt (<) (map fst (add_group k v gs))"
proof (induction gs)
  case Nil
  then show ?case by simp
next
  case (Cons g gs)
  obtain k' vs where g: "g = (k', vs)" by (cases g)
  have "\<forall>x \<in> fst ` set (add_group k v gs). k' < x" if "k' < k"
    using that Cons.prems unfolding add_group_keys by (auto simp: g)
  then show ?case
    using Cons by (auto simp: g)
qed

lemma map_of_None_less:
  "\<forall>x \<in> fst ` set gs. k < x \<Longrightarrow> map_of gs (k::'k::linorder) = None"
  by (induction gs) auto

lemma add_group_map_of:
  "sorted_wrt (<) (map fst gs) \<Longrightarrow>
   map_of (add_group k v gs) k' =
     (if k' = k then Some ((case map_of gs k of None \<Rightarrow> [] | Some vs \<Rightarrow> vs) @ [v])
      else map_of gs k')"
proof (induction gs)
  case Nil
  then show ?case by simp
next
  case (Cons g gs)
  obtain a vs where g: "g = (a, vs)" by (cases g)
  have none: "map_of gs k = None" if "k < a"
    using that Cons.prems by (intro map_of_None_less) (auto simp: g)
  show ?case
    using Cons none by (auto simp: g)
qed

lemma groups_of_sorted: "sorted_wrt (<) (map fst (groups_of key rs))"
proof (induction rs rule: rev_induct)
  case Nil
  show ?case by (simp add: groups_of_def)
next
  case (snoc r rs)
  then show ?case by (simp add: groups_of_snoc add_group_sorted)
qed

lemma groups_of_keys: "fst ` set (groups_of key rs) = key ` set rs"
proof (induction rs rule: rev_induct)
  case Nil
  show ?case by (simp add: groups_of_def)
next
  case (snoc r rs)
  then show ?case by (simp add: groups_of_snoc add_group_keys)
qed

lemma groups_of_map_of:
  "map_of (groups_of key rs) k =
     (if k \<in> key ` set rs then Some (filter (\<lambda>r. key r = k) rs) else None)"
proof (induction rs rule: rev_induct)
  case Nil
  then show ?case by (simp add: groups_of_def)
next
  case (snoc r rs)
  have new: "filter (\<lambda>x. key x = key r) rs = []" if "key r \<notin> key ` set rs"
    using that by (metis (mono_tags, lifting) filter_False imageI)
  show ?case
    using snoc new by (auto simp: groups_of_snoc add_group_map_of groups_of_sorted)
qed

section \<open>Lemmas: sums and maxima\<close>

lemma series_sum_exact: "series_sum exact_arith xs = sum_list xs"
  by (simp add: series_sum_def exact_arith_def)

lemma group_reduce_exact: "group_reduce exact_arith = sum_list"
  by (simp add: exact_arith_def)

lemma count_list_distinct:
  "distinct xs \<Longrightarrow> count_list xs k = (if k \<in> set xs then 1 else 0)"
  by (induction xs) auto

lemma groups_of_distinct: "distinct (map fst (groups_of key rs))"
  using groups_of_sorted [of key rs] by (simp add: strict_sorted_iff)

lemma grouped:
  "and_then (groupby view by key) (\<lambda>g. agg g col fld oper) =
     (if by \<notin> set (columns view) then Inl (KeyError by)
      else if col \<notin> set (columns view) then Inl (KeyError col)
      else Inr (map (\<lambda>(k, rs). (k, oper (map fld rs))) (groups_of key (rows view))))"
  by (simp add: and_then_def groupby_def agg_def)

lemma agg_keys:
  "map fst (map (\<lambda>(k, rs). (k, f rs)) gs) = map fst gs"
  by (induction gs) auto

lemma groups_of_entry:
  fixes key :: "order_line_item \<Rightarrow> 'k::linorder"
  shows "(k, g) \<in> set (groups_of key rs) \<longleftrightarrow>
     k \<in> key ` set rs \<and> g = filter (\<lambda>r. key r = k) rs"
proof -
  have "(k, g) \<in> set (groups_of key rs) \<longleftrightarrow> map_of (groups_of key rs) k = Some g"
    using groups_of_distinct [of key rs] by simp
  then show ?thesis
    by (auto simp: groups_of_map_of)
qed

lemma agg_entry:
  fixes key :: "order_line_item \<Rightarrow> 'k::linorder"
  shows "(k, v) \<in> set (map (\<lambda>(k, g). (k, f g)) (groups_of key rs)) \<longleftrightarrow>
     k \<in> key ` set rs \<and> v = f (filter (\<lambda>r. key r = k) rs)"
proof -
  have "(k, g) \<in> set (groups_of key rs) \<longleftrightarrow> map_of (groups_of key rs) k = Some g" for g
    using groups_of_distinct [of key rs] by simp
  then have mem: "(k, g) \<in> set (groups_of key rs) \<longleftrightarrow>
      k \<in> key ` set rs \<and> g = filter (\<lambda>r. key r = k) rs" for g
    by (auto simp: groups_of_map_of)
  have "(k, v) \<in> set (map (\<lambda>(k, g). (k, f g)) (groups_of key rs)) \<longleftrightarrow>
      (\<exists>g. (k, g) \<in> set (groups_of key rs) \<and> v = f g)"
    by force
  then show ?thesis
    unfolding mem by blast
qed

lemma add_group_sum:
  "(\<Sum>(k, g)\<leftarrow>add_group k v gs. sum_list (map f g)) = (\<Sum>(k, g)\<leftarrow>gs. sum_list (map f g)) + (f v :: rat)"
  by (induction k v gs rule: add_group.induct) simp_all

lemma groups_of_sum:
  "(\<Sum>(k, g)\<leftarrow>groups_of key rs. sum_list (map f g)) = (\<Sum>r\<leftarrow>rs. (f r :: rat))"
proof (induction rs rule: rev_induct)
  case Nil
  show ?case by (simp add: groups_of_def)
next
  case (snoc r rs)
  then show ?case by (simp add: groups_of_snoc add_group_sum)
qed

lemma argmax_scan_max:
  "argmax_scan b xs \<in> set (b # xs) \<and> (\<forall>y \<in> set (b # xs). snd y \<le> snd (argmax_scan b xs))"
proof (induction xs arbitrary: b)
  case Nil
  show ?case by simp
next
  case (Cons x xs)
  show ?case
  proof (cases "snd b < snd x")
    case True
    then show ?thesis using Cons [of x] by auto
  next
    case False
    then show ?thesis using Cons [of b] by auto
  qed
qed

lemma argmax_scan_first:
  fixes b :: "'k::linorder \<times> rat"
  assumes "sorted_wrt (<) (map fst (b # xs))"
  shows "\<forall>y \<in> set (b # xs). snd y = snd (argmax_scan b xs) \<longrightarrow> fst (argmax_scan b xs) \<le> fst y"
  using assms
proof (induction xs arbitrary: b)
  case Nil
  show ?case by simp
next
  case (Cons x xs)
  show ?case
  proof (cases "snd b < snd x")
    case True
    have srt: "sorted_wrt (<) (map fst (x # xs))"
      using Cons.prems by simp
    have r: "argmax_scan b (x # xs) = argmax_scan x xs"
      using True by simp
    have "snd x \<le> snd (argmax_scan x xs)"
      using argmax_scan_max [of x xs] by simp
    then have "snd b \<noteq> snd (argmax_scan x xs)"
      using True by simp
    then show ?thesis
      unfolding r using Cons.IH [OF srt] by simp
  next
    case False
    have srt: "sorted_wrt (<) (map fst (b # xs))"
      using Cons.prems by simp
    have r: "argmax_scan b (x # xs) = argmax_scan b xs"
      using False by simp
    have ih: "\<forall>y \<in> set (b # xs). snd y = snd (argmax_scan b xs) \<longrightarrow> fst (argmax_scan b xs) \<le> fst y"
      by (rule Cons.IH [OF srt])
    have "fst (argmax_scan b xs) \<le> fst x" if "snd x = snd (argmax_scan b xs)"
    proof -
      have "snd b \<le> snd (argmax_scan b xs)"
        using argmax_scan_max [of b xs] by simp
      then have "snd b = snd (argmax_scan b xs)"
        using False that by simp
      then have "fst (argmax_scan b xs) \<le> fst b"
        using ih by simp
      moreover have "fst b < fst x"
        using Cons.prems by simp
      ultimately show ?thesis by simp
    qed
    then show ?thesis
      unfolding r using ih by simp
  qed
qed

lemma series_max_Max: "xs \<noteq> [] \<Longrightarrow> series_max xs = Val (Max (set xs))"
  by (cases xs) (simp_all add: series_max_def Max.set_eq_fold [symmetric])

lemma and_then_assoc: "and_then (and_then r f) g = and_then r (\<lambda>x. and_then (f x) g)"
  by (cases r) (simp_all add: and_then_def)

section \<open>Lemmas: running the page functions\<close>

lemma step_pure: "step (pure x) f = f x"
  by (rule ext) (simp add: step_def pure_def)

lemma step_lift: "step (lift r) f h = (case r of Inl e \<Rightarrow> (Inl e, h) | Inr x \<Rightarrow> f x h)"
  by (simp add: step_def lift_def split: sum.splits)

lemma step_deref:
  "step (deref a) f h = (if a < length h then f (h ! a) h else (Inl NameError, h))"
  by (simp add: step_def deref_def)

lemma step_alloc: "step (alloc df) f h = f (length h) (h @ [df])"
  by (simp add: step_def alloc_def)

lemma step_assign:
  "step (assign a df) f h = (if a < length h then f () (h[a := df]) else (Inl NameError, h))"
  by (simp add: step_def assign_def)

lemma step_assoc: "step (step m f) g = step m (\<lambda>x. step (f x) g)"
  by (rule ext) (simp add: step_def split: prod.splits sum.splits)

lemma step_if: "step (if c then m else m') f = (if c then step m f else step m' f)"
  by simp

lemmas run_simps = step_pure step_lift step_deref step_alloc step_assign step_assoc step_if

lemma rows_restamp: "map (\<lambda>(r, v). r\<lparr>order_date := v\<rparr>) (zip rs (map order_date rs)) = rs"
  by (induction rs) simp_all

lemma setitem_order_date_same:
  "''order_date'' \<in> set (columns fd) \<Longrightarrow>
   setitem_order_date fd (to_datetime (map order_date (rows fd))) = fd"
  by (cases fd) (simp add: setitem_order_date_def to_datetime_def rows_restamp)

lemma time_series_run:
  assumes "data < length h" and "a < length h" and "columns (h ! a) = columns (h ! data)"
  shows "time_series A a h =
     (if ''order_date'' \<in> set (columns (h ! data))
      then (case sales_over_time A (h ! a) of Inl e \<Rightarrow> Inl e | Inr s \<Rightarrow> Inr (Some s), h)
      else (Inr None, h))"
proof (cases "''order_date'' \<in> set (columns (h ! data))")
  case True
  then have same: "setitem_order_date (h ! a) (to_datetime (map order_date (rows (h ! a)))) = h ! a"
    using assms(3) by (simp add: setitem_order_date_same)
  show ?thesis
    using assms True
    by (simp add: time_series_def run_simps pure_def getitem_def same split: sum.splits)
next
  case False
  then show ?thesis
    using assms by (simp add: time_series_def run_simps pure_def)
qed

lemma rows_filter_isin:
  "''pizza_name'' \<in> set (columns d) \<Longrightarrow>
   filter_isin d compare = Inr (d\<lparr>rows := filter (\<lambda>r. pizza_name r \<in> set compare) (rows d)\<rparr>)"
  by (simp add: filter_isin_def and_then_def getitem_def getitem_mask_def isin_def mask_rows
      comp_def)

lemma comparative_analysis_run:
  assumes "data < length h" and "''pizza_name'' \<in> set (columns (h ! data))"
  shows "comparative_analysis u h =
     (let compare = multiselect (unique (map pizza_name (rows (h ! data)))) (compare_picks u);
          cd = (h ! data)\<lparr>rows := filter (\<lambda>r. pizza_name r \<in> set compare) (rows (h ! data))\<rparr>
      in if compare = [] then (Inr None, h)
         else if ''total_price'' \<in> set (columns (h ! data)) then (Inr (Some cd), h @ [cd])
         else (Inl ValueError, h @ [cd]))"
  using assms
  by (simp add: comparative_analysis_def run_simps pure_def Let_def getitem_def rows_filter_isin
      px_bar_def)

lemma selectbox_member:
  assumes "xs \<noteq> []"
  shows "\<exists>c. selectbox (np_unique xs) i = Some c \<and> c \<in> set xs"
proof -
  define os where "os = np_unique xs"
  have s: "set os = set xs" by (simp add: os_def np_unique_def)
  with assms have "os \<noteq> []" by auto
  then obtain y ys where ys: "os = y # ys" by (cases os) auto
  define c where "c = (if i < length os then os ! i else y)"
  have cin: "c \<in> set os"
  proof (cases "i < length os")
    case True
    then show ?thesis using nth_mem [of i os] by (simp add: c_def)
  next
    case False
    then show ?thesis by (simp add: c_def ys)
  qed
  have "selectbox os i = Some c"
    unfolding c_def ys by (simp add: selectbox_def)
  then show ?thesis
    using cin s unfolding os_def by blast
qed

lemma top_selling_pizza_defined:
  assumes "''pizza_name'' \<in> set (columns view)" and "''total_price'' \<in> set (columns view)"
    and "rows view \<noteq> []"
  shows "\<exists>n. top_selling_pizza A view = Inr n" and "\<exists>s. top_pizza_sales A view = Inr (Val s)"
proof -
  define s where
    "s = map (\<lambda>(k, rs). (k, group_reduce A (map total_price rs))) (groups_of pizza_name (rows view))"
  have sums: "and_then (groupby view ''pizza_name'' pizza_name)
      (\<lambda>g. agg g ''total_price'' total_price (group_reduce A)) = Inr s"
    using assms by (simp add: grouped s_def)
  have "map fst s = map fst (groups_of pizza_name (rows view))"
    unfolding s_def by (rule agg_keys)
  then have "set (map fst s) \<noteq> {}"
    using assms(3) groups_of_keys [of pizza_name "rows view"] by simp
  then obtain x xs where xs: "s = x # xs"
    by (cases s) auto
  have "top_selling_pizza A view = and_then (Inr s) idxmax"
    unfolding top_selling_pizza_def and_then_assoc [symmetric] sums ..
  then show "\<exists>n. top_selling_pizza A view = Inr n"
    by (simp add: and_then_def idxmax_def xs)
  have "top_pizza_sales A view = and_then (Inr s) (\<lambda>s. Inr (series_max (map snd s)))"
    unfolding top_pizza_sales_def and_then_assoc [symmetric] sums ..
  then show "\<exists>s. top_pizza_sales A view = Inr (Val s)"
    by (simp add: and_then_def series_max_def xs)
qed

lemma page_prefix:
  assumes "data < length h" and "''pizza_category'' \<in> set (columns (h ! data))"
    and "view = (h ! data)\<lparr>rows := filter (\<lambda>r. Some (pizza_category r) =
        selectbox (np_unique (map pizza_category (rows (h ! data)))) (category_pick u))
        (rows (h ! data))\<rparr>"
  shows "data_analysis A u h =
      step (lift (total_sales A view)) (\<lambda>ts.
      step (lift (average_price A view)) (\<lambda>ap.
      step (lift (top_selling_pizza A view)) (\<lambda>top.
      step (lift (top_pizza_sales A view)) (\<lambda>tps.
      step (time_series A (length h)) (\<lambda>time_data.
      step (comparative_analysis u) (\<lambda>cmp.
      step (deref (length h)) (\<lambda>fd'.
      pure \<lparr>metric_total_sales = ts, metric_average_price = ap,
            metric_top_selling_pizza = top, metric_top_pizza_sales = tps,
            fig_time_series = time_data, fig_compare = cmp,
            download_data = fd'\<rparr>))))))) (h @ [view])"
    and "data_visualization A u h =
      step (lift (total_sales_by_pizza A view)) (\<lambda>bar.
      step (lift (sales_by_size A view)) (\<lambda>pie.
      step (time_series A (length h)) (\<lambda>line.
      step (deref (length h)) (\<lambda>fd'.
      pure \<lparr>fig_bar = bar, fig_pie = pie, fig_line = line,
           dataframe = (if show_data_table u then Some fd' else None),
           download_filtered = fd'\<rparr>)))) (h @ [view])"
  using assms
  by (simp_all add: data_analysis_def data_visualization_def step_deref step_alloc step_lift
      getitem_def rows_filter_category)

lemma step_time_series:
  assumes "data < length h" and "a < length h" and "columns (h ! a) = columns (h ! data)"
    and "''total_price'' \<in> set (columns (h ! data))"
  shows "step (time_series A a) f h =
     f (if ''order_date'' \<in> set (columns (h ! data))
        then Some (map (\<lambda>(k, rs). (k, group_reduce A (map total_price rs)))
                    (groups_of order_date (rows (h ! a))))
        else None) h"
  using assms
  by (simp add: step_def time_series_run sales_over_time_def grouped)

lemma step_comparative_analysis:
  assumes "data < length h" and "''pizza_name'' \<in> set (columns (h ! data))"
    and "''total_price'' \<in> set (columns (h ! data))"
  shows "\<exists>cmp ys. step (comparative_analysis u) f h = f cmp (h @ ys)"
proof (cases "multiselect (unique (map pizza_name (rows (h ! data)))) (compare_picks u) = []")
  case True
  then have "step (comparative_analysis u) f h = f None (h @ [])"
    using assms by (simp add: step_def comparative_analysis_run)
  then show ?thesis by blast
next
  case False
  define cd where "cd = (h ! data)\<lparr>rows := filter (\<lambda>r. pizza_name r \<in> set (multiselect
      (unique (map pizza_name (rows (h ! data)))) (compare_picks u))) (rows (h ! data))\<rparr>"
  have "step (comparative_analysis u) f h = f (Some cd) (h @ [cd])"
    using assms False by (simp add: step_def comparative_analysis_run Let_def cd_def)
  then show ?thesis by blast
qed

lemma view_facts:
  assumes "view = d\<lparr>rows := filter (\<lambda>r. Some (pizza_category r) =
        selectbox (np_unique (map pizza_category (rows d))) i) (rows d)\<rparr>"
  shows "columns view = columns d" and "rows d \<noteq> [] \<Longrightarrow> rows view \<noteq> []"
proof -
  show "columns view = columns d"
    by (simp add: assms)
  assume "rows d \<noteq> []"
  then have "map pizza_category (rows d) \<noteq> []" by simp
  from selectbox_member [OF this, of i]
  obtain c where c: "selectbox (np_unique (map pizza_category (rows d))) i = Some c"
    and "c \<in> set (map pizza_category (rows d))" by blast
  then obtain r where "r \<in> set (rows d)" and "pizza_category r = c" by auto
  then have "r \<in> set (rows view)"
    by (simp add: assms c)
  then show "rows view \<noteq> []" by auto
qed

lemma data_analysis_ok:
  assumes "data < length h"
    and "''pizza_category'' \<in> set (columns (h ! data))"
    and "''total_price'' \<in> set (columns (h ! data))"
    and "''unit_price'' \<in> set (columns (h ! data))"
    and "''pizza_name'' \<in> set (columns (h ! data))"
    and "rows (h ! data) \<noteq> []"
  shows "\<exists>out a s. fst (data_analysis A u h) = Inr out
       \<and> metric_average_price out = Val a \<and> metric_top_pizza_sales out = Val s
       \<and> rows (download_data out) \<noteq> []
       \<and> (fig_time_series out = None \<longleftrightarrow> ''order_date'' \<notin> set (columns (h ! data)))"
proof -
  define view where "view = (h ! data)\<lparr>rows := filter (\<lambda>r. Some (pizza_category r) =
        selectbox (np_unique (map pizza_category (rows (h ! data)))) (category_pick u))
        (rows (h ! data))\<rparr>"
  note vf = view_facts [OF view_def]
  have cols: "columns view = columns (h ! data)" and ne: "rows view \<noteq> []"
    using vf assms(6) by simp_all
  have ts: "total_sales A view = Inr (series_sum A (map total_price (rows view)))"
    using assms(3) cols by (simp add: total_sales_def getitem_def and_then_def)
  obtain a where ap: "average_price A view = Inr (Val a)"
    using assms(4) cols ne by (simp add: average_price_def getitem_def and_then_def series_mean_def)
  obtain n where top: "top_selling_pizza A view = Inr n"
    using top_selling_pizza_defined(1) [of view] assms(3,5) cols ne by auto
  obtain s where tps: "top_pizza_sales A view = Inr (Val s)"
    using top_selling_pizza_defined(2) [of view] assms(3,5) cols ne by auto
  let ?h1 = "h @ [view]"
  have h1: "data < length ?h1" "length h < length ?h1" "?h1 ! length h = view"
      "?h1 ! data = h ! data"
    using assms(1) by (simp_all add: nth_append)
  have tser: "step (time_series A (length h)) f ?h1 =
      f (if ''order_date'' \<in> set (columns (h ! data))
         then Some (map (\<lambda>(k, rs). (k, group_reduce A (map total_price rs)))
                     (groups_of order_date (rows view)))
         else None) ?h1" for f :: "(timestamp \<times> rat) list option \<Rightarrow> analysis prog"
    using step_time_series [where h = "?h1" and a = "length h" and f = f and A = A] h1 cols assms(3) by simp
  have cmp: "\<exists>cmp ys. step (comparative_analysis u) f ?h1 = f cmp (?h1 @ ys)"
    for f :: "frame option \<Rightarrow> analysis prog"
    using step_comparative_analysis [of ?h1 u f] h1 assms(3,5) by simp
  have nth: "(?h1 @ ys) ! length h = view" "length h < length (?h1 @ ys)" for ys
    by (simp_all add: nth_append)
  define tline where "tline = (if ''order_date'' \<in> set (columns (h ! data))
         then Some (map (\<lambda>(k, rs). (k, group_reduce A (map total_price rs)))
                     (groups_of order_date (rows view)))
         else None)"
  define k :: "frame option \<Rightarrow> analysis prog" where
    "k = (\<lambda>cmp. step (deref (length h)) (\<lambda>fd'.
      pure \<lparr>metric_total_sales = series_sum A (map total_price (rows view)),
            metric_average_price = Val a, metric_top_selling_pizza = n,
            metric_top_pizza_sales = Val s, fig_time_series = tline, fig_compare = cmp,
            download_data = fd'\<rparr>))"
  have "data_analysis A u h = step (comparative_analysis u) k ?h1"
    unfolding page_prefix(1) [OF assms(1,2) view_def]
    by (simp add: step_lift ts ap top tps tser k_def tline_def)
  moreover obtain cmp ys where "step (comparative_analysis u) k ?h1 = k cmp (?h1 @ ys)"
    using cmp by blast
  moreover have "k cmp (?h1 @ ys) =
      (Inr \<lparr>metric_total_sales = series_sum A (map total_price (rows view)),
            metric_average_price = Val a, metric_top_selling_pizza = n,
            metric_top_pizza_sales = Val s, fig_time_series = tline, fig_compare = cmp,
            download_data = view\<rparr>, ?h1 @ ys)"
    using nth [of ys] by (simp add: k_def step_deref pure_def)
  ultimately have "fst (data_analysis A u h) =
      Inr \<lparr>metric_total_sales = series_sum A (map total_price (rows view)),
            metric_average_price = Val a, metric_top_selling_pizza = n,
            metric_top_pizza_sales = Val s, fig_time_series = tline, fig_compare = cmp,
            download_data = view\<rparr>"
    by simp
  then show ?thesis
    using ne by (simp add: tline_def)
qed

lemma top_selling_pizza_grouped:
  "top_selling_pizza A view =
     (if ''pizza_name'' \<notin> set (columns view) then Inl (KeyError ''pizza_name'')
      else if ''total_price'' \<notin> set (columns view) then Inl (KeyError ''total_price'')
      else idxmax (map (\<lambda>(k, rs). (k, group_reduce A (map total_price rs)))
             (groups_of pizza_name (rows view))))"
  unfolding top_selling_pizza_def and_then_assoc [symmetric] grouped
  by (simp add: and_then_def)

lemma data_visualization_ok:
  assumes "data < length h"
    and "''pizza_category'' \<in> set (columns (h ! data))"
    and "''pizza_name'' \<in> set (columns (h ! data))"
    and "''total_price'' \<in> set (columns (h ! data))"
    and "''pizza_size'' \<in> set (columns (h ! data))"
  shows "\<exists>out. fst (data_visualization A u h) = Inr out
       \<and> (fig_line out = None \<longleftrightarrow> ''order_date'' \<notin> set (columns (h ! data)))"
proof -
  define view where "view = (h ! data)\<lparr>rows := filter (\<lambda>r. Some (pizza_category r) =
        selectbox (np_unique (map pizza_category (rows (h ! data)))) (category_pick u))
        (rows (h ! data))\<rparr>"
  have cols: "columns view = columns (h ! data)"
    by (simp add: view_def)
  let ?h1 = "h @ [view]"
  have h1: "data < length ?h1" "length h < length ?h1" "?h1 ! length h = view"
      "?h1 ! data = h ! data"
    using assms(1) by (simp_all add: nth_append)
  have tser: "step (time_series A (length h)) f ?h1 =
      f (if ''order_date'' \<in> set (columns (h ! data))
         then Some (map (\<lambda>(k, rs). (k, group_reduce A (map total_price rs)))
                     (groups_of order_date (rows view)))
         else None) ?h1" for f :: "(timestamp \<times> rat) list option \<Rightarrow> visualization prog"
    using step_time_series [where h = "?h1" and a = "length h" and f = f and A = A] h1 cols assms(4) by simp
  show ?thesis
    unfolding page_prefix(2) [OF assms(1,2) view_def]
    using assms(3,4,5)
    by (simp add: step_lift total_sales_by_pizza_def sales_by_size_def grouped cols tser
        step_deref pure_def)
qed

lemma page_key_errors:
  assumes "data < length h"
  shows "''pizza_category'' \<notin> set (columns (h ! data)) \<Longrightarrow>
           fst (data_visualization A u h) = Inl (KeyError ''pizza_category'')
         \<and> fst (data_analysis A u h) = Inl (KeyError ''pizza_category'')"
    and "''pizza_category'' \<in> set (columns (h ! data)) \<Longrightarrow>
         ''pizza_name'' \<notin> set (columns (h ! data)) \<Longrightarrow>
           fst (data_visualization A u h) = Inl (KeyError ''pizza_name'')"
    and "''pizza_category'' \<in> set (columns (h ! data)) \<Longrightarrow>
         ''pizza_name'' \<in> set (columns (h ! data)) \<Longrightarrow>
         ''total_price'' \<notin> set (columns (h ! data)) \<Longrightarrow>
           fst (data_visualization A u h) = Inl (KeyError ''total_price'')"
    and "''pizza_category'' \<in> set (columns (h ! data)) \<Longrightarrow>
         ''pizza_name'' \<in> set (columns (h ! data)) \<Longrightarrow>
         ''total_price'' \<in> set (columns (h ! data)) \<Longrightarrow>
         ''pizza_size'' \<notin> set (columns (h ! data)) \<Longrightarrow>
           fst (data_visualization A u h) = Inl (KeyError ''pizza_size'')"
    and "''pizza_category'' \<in> set (columns (h ! data)) \<Longrightarrow>
         ''total_price'' \<notin> set (columns (h ! data)) \<Longrightarrow>
           fst (data_analysis A u h) = Inl (KeyError ''total_price'')"
    and "''pizza_category'' \<in> set (columns (h ! data)) \<Longrightarrow>
         ''total_price'' \<in> set (columns (h ! data)) \<Longrightarrow>
         ''unit_price'' \<notin> set (columns (h ! data)) \<Longrightarrow>
           fst (data_analysis A u h) = Inl (KeyError ''unit_price'')"
    and "''pizza_category'' \<in> set (columns (h ! data)) \<Longrightarrow>
         ''total_price'' \<in> set (columns (h ! data)) \<Longrightarrow>
         ''unit_price'' \<in> set (columns (h ! data)) \<Longrightarrow>
         ''pizza_name'' \<notin> set (columns (h ! data)) \<Longrightarrow>
           fst (data_analysis A u h) = Inl (KeyError ''pizza_name'')"
proof -
  show "''pizza_category'' \<notin> set (columns (h ! data)) \<Longrightarrow>
           fst (data_visualization A u h) = Inl (KeyError ''pizza_category'')
         \<and> fst (data_analysis A u h) = Inl (KeyError ''pizza_category'')"
    using assms
    by (simp add: data_visualization_def data_analysis_def step_deref step_lift getitem_def)
  define view where "view = (h ! data)\<lparr>rows := filter (\<lambda>r. Some (pizza_category r) =
        selectbox (np_unique (map pizza_category (rows (h ! data)))) (category_pick u))
        (rows (h ! data))\<rparr>"
  have cols: "columns view = columns (h ! data)"
    by (simp add: view_def)
  assume pc: "''pizza_category'' \<in> set (columns (h ! data))"
  note vis = page_prefix(2) [OF assms pc view_def]
  note ana = page_prefix(1) [OF assms pc view_def]
  show "''pizza_name'' \<notin> set (columns (h ! data)) \<Longrightarrow>
           fst (data_visualization A u h) = Inl (KeyError ''pizza_name'')"
    unfolding vis by (simp add: step_lift total_sales_by_pizza_def grouped cols)
  show "''pizza_name'' \<in> set (columns (h ! data)) \<Longrightarrow>
         ''total_price'' \<notin> set (columns (h ! data)) \<Longrightarrow>
           fst (data_visualization A u h) = Inl (KeyError ''total_price'')"
    unfolding vis by (simp add: step_lift total_sales_by_pizza_def grouped cols)
  show "''pizza_name'' \<in> set (columns (h ! data)) \<Longrightarrow>
         ''total_price'' \<in> set (columns (h ! data)) \<Longrightarrow>
         ''pizza_size'' \<notin> set (columns (h ! data)) \<Longrightarrow>
           fst (data_visualization A u h) = Inl (KeyError ''pizza_size'')"
    unfolding vis
    by (simp add: step_lift total_sales_by_pizza_def sales_by_size_def grouped cols)
  show "''total_price'' \<notin> set (columns (h ! data)) \<Longrightarrow>
           fst (data_analysis A u h) = Inl (KeyError ''total_price'')"
    unfolding ana by (simp add: step_lift total_sales_def getitem_def and_then_def cols)
  show "''total_price'' \<in> set (columns (h ! data)) \<Longrightarrow>
         ''unit_price'' \<notin> set (columns (h ! data)) \<Longrightarrow>
           fst (data_analysis A u h) = Inl (KeyError ''unit_price'')"
    unfolding ana
    by (simp add: step_lift total_sales_def average_price_def getitem_def and_then_def cols)
  show "''total_price'' \<in> set (columns (h ! data)) \<Longrightarrow>
         ''unit_price'' \<in> set (columns (h ! data)) \<Longrightarrow>
         ''pizza_name'' \<notin> set (columns (h ! data)) \<Longrightarrow>
           fst (data_analysis A u h) = Inl (KeyError ''pizza_name'')"
    unfolding ana
    by (simp add: step_lift total_sales_def average_price_def getitem_def and_then_def cols
        top_selling_pizza_grouped)
qed

lemma load_data_same: "load_data csv = csv"
  by (simp add: load_data_def setitem_order_date_same)

lemma page_without_data:
  assumes "\<not> data < length h"
  shows "data_visualization A u h = (Inl NameError, h)" and "data_analysis A u h = (Inl NameError, h)"
  using assms by (simp_all add: data_visualization_def data_analysis_def step_deref)

lemma step_time_series_heap:
  assumes "data < length h" and "a < length h" and "columns (h ! a) = columns (h ! data)"
  shows "step (time_series A a) f h =
     (case fst (time_series A a h) of Inl e \<Rightarrow> (Inl e, h) | Inr x \<Rightarrow> f x h)"
  by (simp add: step_def time_series_run [OF assms] split: sum.splits)

lemma comparative_analysis_heap:
  assumes "data < length h"
  shows "\<exists>ys. snd (comparative_analysis u h) = h @ ys \<and> (\<forall>v \<in> set ys. projection (h ! data) v)"
proof (cases "''pizza_name'' \<in> set (columns (h ! data))")
  case True
  show ?thesis
    unfolding comparative_analysis_run [OF assms True]
    by (simp add: Let_def projection_def)
next
  case False
  then have "comparative_analysis u h = (Inl (KeyError ''pizza_name''), h)"
    using assms by (simp add: comparative_analysis_def step_deref step_lift getitem_def)
  then show ?thesis by simp
qed

lemma step_comparative_analysis_heap:
  assumes "data < length h" and "\<And>x ys. snd (f x (h @ ys)) = h @ ys"
  shows "\<exists>ys. snd (step (comparative_analysis u) f h) = h @ ys
     \<and> (\<forall>v \<in> set ys. projection (h ! data) v)"
proof -
  obtain ys where ys: "snd (comparative_analysis u h) = h @ ys"
      "\<forall>v \<in> set ys. projection (h ! data) v"
    using comparative_analysis_heap [OF assms(1)] by blast
  obtain r where r: "comparative_analysis u h = (r, h @ ys)"
    using ys(1) by (cases "comparative_analysis u h") simp
  have "snd (step (comparative_analysis u) f h) = h @ ys"
    by (cases r) (simp_all add: step_def r assms(2))
  then show ?thesis
    using ys(2) by blast
qed

lemma page_heap:
  assumes "data < length h"
  shows "\<exists>ys. snd (data_visualization A u h) = h @ ys \<and> (\<forall>v \<in> set ys. projection (h ! data) v)"
    and "\<exists>ys. snd (data_analysis A u h) = h @ ys \<and> (\<forall>v \<in> set ys. projection (h ! data) v)"
proof -
  define view where "view = (h ! data)\<lparr>rows := filter (\<lambda>r. Some (pizza_category r) =
        selectbox (np_unique (map pizza_category (rows (h ! data)))) (category_pick u))
        (rows (h ! data))\<rparr>"
  have pv: "projection (h ! data) view"
    by (simp add: projection_def view_def)
  let ?h1 = "h @ [view]"
  have h1: "data < length ?h1" "length h < length ?h1"
      "columns (?h1 ! length h) = columns (?h1 ! data)" "?h1 ! data = h ! data"
    using assms by (simp_all add: nth_append view_def)
  note ts = step_time_series_heap [OF h1(1,2,3)]
  show "\<exists>ys. snd (data_visualization A u h) = h @ ys \<and> (\<forall>v \<in> set ys. projection (h ! data) v)"
  proof (cases "''pizza_category'' \<in> set (columns (h ! data))")
    case True
    have "snd (data_visualization A u h) = h @ [view]"
      unfolding page_prefix(2) [OF assms True view_def]
      by (simp add: step_lift ts step_deref pure_def split: sum.splits)
    then show ?thesis using pv by simp
  next
    case False
    then have "data_visualization A u h = (Inl (KeyError ''pizza_category''), h)"
      using assms by (simp add: data_visualization_def step_deref step_lift getitem_def)
    then show ?thesis by simp
  qed
  show "\<exists>ys. snd (data_analysis A u h) = h @ ys \<and> (\<forall>v \<in> set ys. projection (h ! data) v)"
  proof (cases "''pizza_category'' \<in> set (columns (h ! data))")
    case True
    have tail: "\<exists>ys. snd (step (comparative_analysis u)
            (\<lambda>cmp. step (deref (length h)) (\<lambda>fd'. pure (k cmp fd'))) ?h1) = h @ view # ys
          \<and> (\<forall>v \<in> set ys. projection (h ! data) v)"
      for k :: "frame option \<Rightarrow> frame \<Rightarrow> analysis"
      using step_comparative_analysis_heap [OF h1(1),
          of "\<lambda>cmp. step (deref (length h)) (\<lambda>fd'. pure (k cmp fd'))" u]
      by (simp add: step_deref h1(4) pure_def)
    have "\<exists>ys. snd (data_analysis A u h) = h @ view # ys \<and> (\<forall>v \<in> set ys. projection (h ! data) v)"
      unfolding page_prefix(1) [OF assms True view_def]
      using tail by (simp add: step_lift ts split: sum.splits)
    then obtain ys where "snd (data_analysis A u h) = h @ (view # ys)"
        "\<forall>v \<in> set (view # ys). projection (h ! data) v"
      using pv by auto
    then show ?thesis by blast
  next
    case False
    then have "data_analysis A u h = (Inl (KeyError ''pizza_category''), h)"
      using assms by (simp add: data_analysis_def step_deref step_lift getitem_def)
    then show ?thesis by simp
  qed
qed

lemma render_new:
  "\<exists>ys. render A p u h = h @ ys \<and> (\<forall>v \<in> set ys. projection (h ! data) v)"
proof (cases "data < length h")
  case True
  show ?thesis
    using page_heap [OF True, where u = u and A = A] by (cases p) (simp_all add: render_def)
next
  case False
  show ?thesis
    using page_without_data [OF False, where u = u and A = A] by (cases p) (simp_all add: render_def)
qed

lemma run_new:
  "\<exists>ys. run A events h = h @ ys \<and> (\<forall>v \<in> set ys. projection (h ! data) v)"
proof (induction events arbitrary: h)
  case Nil
  show ?case by (simp add: run_def)
next
  case (Cons e events)
  obtain p u where e: "e = (p, u)" by (cases e)
  obtain ys where ys: "render A p u h = h @ ys" "\<forall>v \<in> set ys. projection (h ! data) v"
    using render_new [of A p u h] by blast
  obtain zs where zs: "run A events (h @ ys) = (h @ ys) @ zs"
      "\<forall>v \<in> set zs. projection ((h @ ys) ! data) v"
    using Cons.IH [of "h @ ys"] by blast
  have r: "run A (e # events) h = h @ (ys @ zs)"
    by (simp add: run_def e ys(1) zs(1) [unfolded run_def])
  show ?case
  proof (cases "data < length h")
    case True
    then have "(h @ ys) ! data = h ! data" by (simp add: nth_append)
    then show ?thesis using r ys(2) zs(2) by auto
  next
    case False
    then have "render A p u h = h"
      using page_without_data [OF False, where u = u and A = A] by (cases p) (simp_all add: render_def)
    then have "ys = []" using ys(1) by simp
    then show ?thesis using r zs(2) by auto
  qed
qed

section \<open>The scenario of the specification\<close>

text \<open>
  The three order lines of the specification's scenario, filtered to the category
  \<open>Classic\<close> (the first option of the select box): total sales 30, average unit price 10,
  top pizza Margherita with sales 30, and daily totals 20 and 10.
\<close>

lemma scenario_classic:
  "fst (data_analysis float64 default_ui (startup sample)) =
     Inr \<lparr>metric_total_sales = 30, metric_average_price = Val 10,
          metric_top_selling_pizza = ''Margherita'', metric_top_pizza_sales = Val 30,
          fig_time_series = Some [(19358, 20), (19359, 10)], fig_compare = None,
          download_data = classic\<rparr>"
  by code_simp

section \<open>The claims\<close>

text \<open>
  C1, as amended. The claim is that asking for the average unit price or the top pizza on an
  empty filtered view yields a recoverable result flagged as undefined, not a crash. This
  holds of the average only. On a view without rows the average unit price (\<^verbatim>\<open>mean\<close>,
  line 139) is \<^verbatim>\<open>NaN\<close>, a value returned without an exception. The top pizza is not
  computed: \<^verbatim>\<open>idxmax\<close> raises \<^verbatim>\<open>ValueError\<close> (line 140), and nothing catches it, so whenever
  the filtered view of \<^verbatim>\<open>data_analysis\<close> is empty the page ends with that exception, after
  creating the view and before line 141 evaluates the top pizza's sales.
\<close>

theorem empty_view_metrics:
  "(''unit_price'' \<in> set (columns view) \<and> rows view = [] \<longrightarrow> average_price A view = Inr NaN)
   \<and> (''pizza_name'' \<in> set (columns view) \<and> ''total_price'' \<in> set (columns view)
        \<and> rows view = [] \<longrightarrow> top_selling_pizza A view = Inl ValueError)
   \<and> (data < length h
        \<and> set [''pizza_category'', ''total_price'', ''unit_price'', ''pizza_name'']
            \<subseteq> set (columns (h ! data))
        \<and> filter (\<lambda>r. Some (pizza_category r) =
              selectbox (np_unique (map pizza_category (rows (h ! data)))) (category_pick u))
            (rows (h ! data)) = [] \<longrightarrow>
          data_analysis A u h = (Inl ValueError, h @ [(h ! data)\<lparr>rows := []\<rparr>]))"
proof (intro conjI impI)
  show "average_price A view = Inr NaN" if "''unit_price'' \<in> set (columns view) \<and> rows view = []"
    using that by (simp add: average_price_def getitem_def and_then_def series_mean_def)
  show "top_selling_pizza A view = Inl ValueError"
    if "''pizza_name'' \<in> set (columns view) \<and> ''total_price'' \<in> set (columns view)
        \<and> rows view = []"
    using that by (simp add: top_selling_pizza_grouped groups_of_def idxmax_def)
  show "data_analysis A u h = (Inl ValueError, h @ [(h ! data)\<lparr>rows := []\<rparr>])"
    if asm: "data < length h
        \<and> set [''pizza_category'', ''total_price'', ''unit_price'', ''pizza_name'']
            \<subseteq> set (columns (h ! data))
        \<and> filter (\<lambda>r. Some (pizza_category r) =
              selectbox (np_unique (map pizza_category (rows (h ! data)))) (category_pick u))
            (rows (h ! data)) = []"
  proof -
    define view where "view = (h ! data)\<lparr>rows := filter (\<lambda>r. Some (pizza_category r) =
        selectbox (np_unique (map pizza_category (rows (h ! data)))) (category_pick u))
        (rows (h ! data))\<rparr>"
    have l: "data < length h" and pc: "''pizza_category'' \<in> set (columns (h ! data))"
      using asm by simp_all
    have v: "view = (h ! data)\<lparr>rows := []\<rparr>"
      using asm by (simp add: view_def)
    have ts: "total_sales A view = Inr 0"
      using asm by (simp add: v total_sales_def getitem_def and_then_def series_sum_def)
    have ap: "average_price A view = Inr NaN"
      using asm by (simp add: v average_price_def getitem_def and_then_def series_mean_def)
    have top: "top_selling_pizza A view = Inl ValueError"
      using asm by (simp add: v top_selling_pizza_grouped groups_of_def idxmax_def)
    show ?thesis
      unfolding page_prefix(1) [OF l pc view_def]
      by (simp add: step_lift ts ap top) (simp add: v)
  qed
qed

theorem empty_view_metrics_witness:
  "''unit_price'' \<in> set (columns empty_csv) \<and> ''pizza_name'' \<in> set (columns empty_csv)
   \<and> ''total_price'' \<in> set (columns empty_csv) \<and> rows empty_csv = []
   \<and> data < length (startup empty_csv)
   \<and> average_price float64 empty_csv = Inr NaN
   \<and> top_selling_pizza float64 empty_csv = Inl ValueError
   \<and> data_analysis float64 default_ui (startup empty_csv)
       = (Inl ValueError, startup empty_csv @ [empty_csv])"
proof -
  have e: "''unit_price'' \<in> set (columns empty_csv)" "''pizza_name'' \<in> set (columns empty_csv)"
      "''total_price'' \<in> set (columns empty_csv)" "rows empty_csv = []"
    by (simp_all add: empty_csv_def schema_def)
  have d: "startup empty_csv ! data = empty_csv" and l: "data < length (startup empty_csv)"
    by (simp_all add: startup_def data_def load_data_same)
  have c: "set [''pizza_category'', ''total_price'', ''unit_price'', ''pizza_name'']
      \<subseteq> set (columns (startup empty_csv ! data))"
    unfolding d by (simp add: empty_csv_def schema_def)
  have f: "filter (\<lambda>r. Some (pizza_category r) =
        selectbox (np_unique (map pizza_category (rows (startup empty_csv ! data))))
          (category_pick default_ui)) (rows (startup empty_csv ! data)) = []"
    by (simp add: d e(4))
  have same: "(startup empty_csv ! data)\<lparr>rows := []\<rparr> = empty_csv"
    unfolding d by (simp add: empty_csv_def)
  note t = empty_view_metrics [where view = empty_csv and A = float64 and h = "startup empty_csv"
      and u = default_ui]
  have "average_price float64 empty_csv = Inr NaN"
    using t e by blast
  moreover have "top_selling_pizza float64 empty_csv = Inl ValueError"
    using t e by blast
  moreover have "data_analysis float64 default_ui (startup empty_csv)
       = (Inl ValueError, startup empty_csv @ [(startup empty_csv ! data)\<lparr>rows := []\<rparr>])"
    using t l c f by blast
  then have "data_analysis float64 default_ui (startup empty_csv)
       = (Inl ValueError, startup empty_csv @ [empty_csv])"
    by (simp only: same)
  ultimately show ?thesis
    using e l by blast
qed

text \<open>
  The claim of C1 fails on the dataset without rows: the select box has nothing to offer,
  the filtered view is empty, \<^verbatim>\<open>idxmax\<close> raises \<^verbatim>\<open>ValueError\<close> on line 140, and the exception
  leaves \<^verbatim>\<open>data_analysis\<close>: the page returns no metrics at all.
\<close>

theorem empty_view_crash:
  "rows empty_csv = []
   \<and> filter_category empty_csv None = Inr empty_csv
   \<and> top_selling_pizza float64 empty_csv = Inl ValueError
   \<and> data_analysis float64 default_ui (startup empty_csv)
       = (Inl ValueError, [empty_csv, empty_csv])"
  by code_simp

text \<open>
  C2. For every dataset with a \<open>pizza_category\<close> column and every category value \<open>v\<close>, the
  equality filter on \<open>pizza_category\<close> produces a view, and the view holds exactly the rows
  of the dataset whose category is \<open>v\<close>: every row of the view has category \<open>v\<close>, every such
  row of the dataset occurs in the view as often as in the dataset, no other row occurs,
  and the rows keep their relative order (the view is the dataset with the other rows
  struck out).
\<close>

theorem filter_category_exact:
  assumes "''pizza_category'' \<in> set (columns df)"
  shows "\<exists>view. filter_category df (Some v) = Inr view
       \<and> (\<forall>r \<in> set (rows view). pizza_category r = v)
       \<and> (\<forall>r. pizza_category r = v \<longrightarrow> count_list (rows view) r = count_list (rows df) r)
       \<and> (\<forall>r. pizza_category r \<noteq> v \<longrightarrow> count_list (rows view) r = 0)
       \<and> subseq (rows view) (rows df)
       \<and> rows view = filter (\<lambda>r. pizza_category r = v) (rows df)
       \<and> columns view = columns df"
proof -
  define view where "view = df\<lparr>rows := filter (\<lambda>r. Some (pizza_category r) = Some v) (rows df)\<rparr>"
  have res: "filter_category df (Some v) = Inr view"
    using assms by (simp add: rows_filter_category view_def)
  have eq: "rows view = filter (\<lambda>r. pizza_category r = v) (rows df)"
    and cols: "columns view = columns df"
    by (simp_all add: view_def)
  have cnt: "count_list (filter P xs) r = (if P r then count_list xs r else 0)"
    for P :: "order_line_item \<Rightarrow> bool" and xs r
    by (induction xs) auto
  have "(\<forall>r \<in> set (rows view). pizza_category r = v)
       \<and> (\<forall>r. pizza_category r = v \<longrightarrow> count_list (rows view) r = count_list (rows df) r)
       \<and> (\<forall>r. pizza_category r \<noteq> v \<longrightarrow> count_list (rows view) r = 0)
       \<and> subseq (rows view) (rows df)
       \<and> rows view = filter (\<lambda>r. pizza_category r = v) (rows df)
       \<and> columns view = columns df"
    unfolding eq cols by (simp add: cnt)
  with res show ?thesis by blast
qed

theorem filter_category_exact_witness:
  "''pizza_category'' \<in> set (columns sample)
   \<and> filter_category sample (Some ''Classic'') = Inr classic
   \<and> rows classic = filter (\<lambda>r. pizza_category r = ''Classic'') (rows sample)
   \<and> subseq (rows classic) (rows sample)
   \<and> rows classic = [sample_rows ! 0, sample_rows ! 2]"
proof -
  have c: "''pizza_category'' \<in> set (columns sample)"
    by (simp add: sample_def schema_def)
  have h: "filter_category sample (Some ''Classic'') = Inr classic"
    by code_simp
  have r: "rows classic = [sample_rows ! 0, sample_rows ! 2]"
    by (simp add: classic_def)
  obtain view where v: "filter_category sample (Some ''Classic'') = Inr view"
      "subseq (rows view) (rows sample)"
      "rows view = filter (\<lambda>r. pizza_category r = ''Classic'') (rows sample)"
    using filter_category_exact [OF c, of "''Classic''"] by blast
  have "view = classic"
    using v(1) h by simp
  then show ?thesis
    using c h r v(2,3) by blast
qed

text \<open>
  C3, as amended. The claim ranks the pizzas by their sums of \<open>total_price\<close>; the script ranks
  them by the sums it computes, which on \<^verbatim>\<open>float64\<close> prices are rounded. With the sums read
  as computed the claim holds, for every arithmetic: for every view with at least one
  row, the top-selling pizza is a pizza name of the view whose grouped sum of
  \<open>total_price\<close> is maximal among the names of the view, the top pizza sales are that
  maximal sum, and among the names whose grouped sums equal it the selected one is the
  lexicographically least. (The grouped sums are ordered by name, and \<^verbatim>\<open>idxmax\<close> takes the
  first maximum.)
\<close>

theorem top_selling_pizza_max:
  assumes "''pizza_name'' \<in> set (columns view)" and "''total_price'' \<in> set (columns view)"
    and "rows view \<noteq> []"
  shows "\<exists>n s. top_selling_pizza A view = Inr n \<and> top_pizza_sales A view = Inr (Val s)
       \<and> n \<in> pizza_name ` set (rows view) \<and> s = sales_of A view n
       \<and> (\<forall>m \<in> pizza_name ` set (rows view). sales_of A view m \<le> s)
       \<and> (\<forall>m \<in> pizza_name ` set (rows view). sales_of A view m = s \<longrightarrow> n \<le> m)"
proof -
  define s where
    "s = map (\<lambda>(k, rs). (k, group_reduce A (map total_price rs))) (groups_of pizza_name (rows view))"
  have sums: "and_then (groupby view ''pizza_name'' pizza_name)
      (\<lambda>g. agg g ''total_price'' total_price (group_reduce A)) = Inr s"
    using assms by (simp add: grouped s_def)
  have entry: "(k, v) \<in> set s \<longleftrightarrow> k \<in> pizza_name ` set (rows view) \<and> v = sales_of A view k" for k v
    unfolding s_def
    using agg_entry [where f = "\<lambda>g. group_reduce A (map total_price g)" and key = pizza_name
        and rs = "rows view" and k = k and v = v]
    by (simp only: sales_of_def)
  have keys: "map fst s = map fst (groups_of pizza_name (rows view))"
    unfolding s_def by (rule agg_keys)
  have "set (map fst s) \<noteq> {}"
    unfolding keys using assms(3) groups_of_keys [of pizza_name "rows view"] by simp
  then obtain x xs where xs: "s = x # xs"
    by (cases s) auto
  define r where "r = argmax_scan x xs"
  have srt: "sorted_wrt (<) (map fst (x # xs))"
    using groups_of_sorted [of pizza_name "rows view"] keys xs by metis
  have rin: "r \<in> set s" and rmax: "\<forall>y \<in> set s. snd y \<le> snd r"
    using argmax_scan_max [of x xs] by (simp_all add: r_def xs)
  have rfirst: "\<forall>y \<in> set s. snd y = snd r \<longrightarrow> fst r \<le> fst y"
    using argmax_scan_first [OF srt] by (simp add: r_def xs)
  have "top_selling_pizza A view = and_then (Inr s) idxmax"
    unfolding top_selling_pizza_def and_then_assoc [symmetric] sums ..
  then have top: "top_selling_pizza A view = Inr (fst r)"
    by (simp add: and_then_def idxmax_def xs r_def)
  have "Max (set (map snd s)) = snd r"
  proof (rule Max_eqI)
    show "finite (set (map snd s))" by simp
    show "y \<le> snd r" if "y \<in> set (map snd s)" for y
      using rmax that by auto
    show "snd r \<in> set (map snd s)"
      using rin by simp
  qed
  moreover have "map snd s \<noteq> []"
    using xs by simp
  ultimately have mx: "series_max (map snd s) = Val (snd r)"
    using series_max_Max by metis
  have "top_pizza_sales A view = and_then (Inr s) (\<lambda>s. Inr (series_max (map snd s)))"
    unfolding top_pizza_sales_def and_then_assoc [symmetric] sums ..
  then have tps: "top_pizza_sales A view = Inr (Val (snd r))"
    using mx by (simp add: and_then_def)
  have r1: "fst r \<in> pizza_name ` set (rows view)" and r2: "snd r = sales_of A view (fst r)"
    using rin entry [of "fst r" "snd r"] by simp_all
  have r3: "sales_of A view m \<le> snd r" if "m \<in> pizza_name ` set (rows view)" for m
    using rmax entry [of m "sales_of A view m"] that by fastforce
  have r4: "fst r \<le> m" if "m \<in> pizza_name ` set (rows view)" and "sales_of A view m = snd r" for m
    using rfirst entry [of m "sales_of A view m"] that by fastforce
  show ?thesis
    using top tps r1 r2 r3 r4 by blast
qed

theorem top_selling_pizza_max_witness:
  "''pizza_name'' \<in> set (columns tied) \<and> ''total_price'' \<in> set (columns tied)
   \<and> rows tied \<noteq> []
   \<and> top_selling_pizza float64 tied = Inr ''Margherita''
   \<and> top_pizza_sales float64 tied = Inr (Val 15)
   \<and> sales_of float64 tied ''Veggie Supreme'' = sales_of float64 tied ''Margherita''
   \<and> ''Margherita'' \<le> ''Veggie Supreme''"
proof -
  have h: "''pizza_name'' \<in> set (columns tied)" "''total_price'' \<in> set (columns tied)"
      "rows tied \<noteq> []"
    by (simp_all add: tied_def schema_def)
  have top: "top_selling_pizza float64 tied = Inr ''Margherita''"
    and tps: "top_pizza_sales float64 tied = Inr (Val 15)"
    and v: "sales_of float64 tied ''Veggie Supreme'' = 15"
    and m: "sales_of float64 tied ''Margherita'' = 15"
    and mem: "''Veggie Supreme'' \<in> pizza_name ` set (rows tied)"
    by code_simp+
  obtain n s where ns: "top_selling_pizza float64 tied = Inr n"
      "top_pizza_sales float64 tied = Inr (Val s)"
    and tie: "\<forall>m \<in> pizza_name ` set (rows tied). sales_of float64 tied m = s \<longrightarrow> n \<le> m"
    using top_selling_pizza_max [OF h, of float64] by blast
  have "n = ''Margherita''" and "s = 15"
    using ns top tps by simp_all
  then have "''Margherita'' \<le> ''Veggie Supreme''"
    using tie mem v by blast
  then show ?thesis
    using h top tps v m by simp
qed

text \<open>
  The claim of C3, with the sums read as sums of the amounts, fails. In \<open>tie_cells\<close> the
  amounts of the two pizzas tie in decimal, 0.3 against 0.1 + 0.2, and \<open>A\<close> is the
  lexicographically first; but the \<^verbatim>\<open>float64\<close> sum of 0.1 and 0.2 is greater than the
  \<^verbatim>\<open>float64\<close> value of 0.3, and the script selects \<open>B\<close>. In \<open>ulp_cells\<close> the values as stored
  have the greater exact sum for \<open>B\<close>, 1 plus 2 to the power -53 against 1; the addition
  rounds it to 1, the computed sums tie, and the script selects \<open>A\<close>.
\<close>

theorem decimal_tie_selects_later:
  "sales_of exact_arith tie_cells ''A'' = sales_of exact_arith tie_cells ''B''
   \<and> ''A'' < ''B''
   \<and> top_selling_pizza float64 (read_csv tie_cells) = Inr ''B''
   \<and> read_csv ulp_cells = ulp_cells
   \<and> sales_of exact_arith ulp_cells ''A'' < sales_of exact_arith ulp_cells ''B''
   \<and> top_selling_pizza float64 (read_csv ulp_cells) = Inr ''A''"
  by code_simp

text \<open>
  C4, as amended. The claim is that a dataset lacking any of the six expected columns is
  rejected by a schema validation before anything is processed. The script validates
  nothing. What it does: a page raises \<^verbatim>\<open>KeyError\<close> for the first column it reads that
  is absent, at the line that reads it, and that ends the page. \<^verbatim>\<open>data_visualization\<close> reads
  \<open>pizza_category\<close>, \<open>pizza_name\<close>, \<open>total_price\<close> and \<open>pizza_size\<close>, in this order;
  \<^verbatim>\<open>data_analysis\<close> reads \<open>pizza_category\<close>, \<open>total_price\<close>, \<open>unit_price\<close> and \<open>pizza_name\<close>.
  A column a page does not read may be absent without any effect on that page, and the
  absence of \<open>order_date\<close> is tested for: \<^verbatim>\<open>load_data\<close> then returns the frame as read, and the
  pages succeed and leave the time series out.
\<close>

theorem missing_column_behaviour:
  assumes "data < length h"
  shows "(case first_missing [''pizza_category'', ''pizza_name'', ''total_price'', ''pizza_size'']
               (h ! data) of
            Some c \<Rightarrow> fst (data_visualization A u h) = Inl (KeyError c)
          | None \<Rightarrow> (\<exists>out. fst (data_visualization A u h) = Inr out
               \<and> (fig_line out = None \<longleftrightarrow> ''order_date'' \<notin> set (columns (h ! data)))))
       \<and> (case first_missing [''pizza_category'', ''total_price'', ''unit_price'', ''pizza_name'']
               (h ! data) of
            Some c \<Rightarrow> fst (data_analysis A u h) = Inl (KeyError c)
          | None \<Rightarrow> rows (h ! data) \<noteq> [] \<longrightarrow>
               (\<exists>out. fst (data_analysis A u h) = Inr out
               \<and> (fig_time_series out = None \<longleftrightarrow> ''order_date'' \<notin> set (columns (h ! data)))))
       \<and> (''order_date'' \<notin> set (columns csv) \<longrightarrow> load_data csv = csv)"
proof (intro conjI)
  note ke = page_key_errors [OF assms, where u = u and A = A]
  show "case first_missing [''pizza_category'', ''pizza_name'', ''total_price'', ''pizza_size'']
               (h ! data) of
            Some c \<Rightarrow> fst (data_visualization A u h) = Inl (KeyError c)
          | None \<Rightarrow> (\<exists>out. fst (data_visualization A u h) = Inr out
               \<and> (fig_line out = None \<longleftrightarrow> ''order_date'' \<notin> set (columns (h ! data))))"
    using ke(1,2,3,4) data_visualization_ok [OF assms, where u = u and A = A]
    by (simp add: first_missing_def)
  show "case first_missing [''pizza_category'', ''total_price'', ''unit_price'', ''pizza_name'']
               (h ! data) of
            Some c \<Rightarrow> fst (data_analysis A u h) = Inl (KeyError c)
          | None \<Rightarrow> rows (h ! data) \<noteq> [] \<longrightarrow>
               (\<exists>out. fst (data_analysis A u h) = Inr out
               \<and> (fig_time_series out = None \<longleftrightarrow> ''order_date'' \<notin> set (columns (h ! data))))"
  proof (cases "first_missing [''pizza_category'', ''total_price'', ''unit_price'', ''pizza_name'']
               (h ! data)")
    case None
    then have all: "''pizza_category'' \<in> set (columns (h ! data))"
        "''total_price'' \<in> set (columns (h ! data))"
        "''unit_price'' \<in> set (columns (h ! data))"
        "''pizza_name'' \<in> set (columns (h ! data))"
      by (simp_all add: first_missing_def split: if_splits)
    show ?thesis
      using data_analysis_ok [OF assms all, where u = u and A = A] None by auto
  next
    case (Some c)
    then show ?thesis
      using ke(1,5,6,7) by (simp add: first_missing_def split: if_splits)
  qed
  show "''order_date'' \<notin> set (columns csv) \<longrightarrow> load_data csv = csv"
    by (simp add: load_data_def)
qed

theorem missing_column_behaviour_witness:
  "data < length (startup no_date)
   \<and> first_missing [''pizza_category'', ''pizza_name'', ''total_price'', ''pizza_size'']
        (startup no_date ! data) = None
   \<and> (\<exists>out. fst (data_visualization float64 default_ui (startup no_date)) = Inr out
         \<and> fig_line out = None)
   \<and> load_data no_date = no_date
   \<and> first_missing [''pizza_category'', ''pizza_name'', ''total_price'', ''pizza_size'']
        (startup no_size ! data) = Some ''pizza_size''
   \<and> fst (data_visualization float64 default_ui (startup no_size)) = Inl (KeyError ''pizza_size'')"
proof -
  have l1: "data < length (startup no_date)" and l2: "data < length (startup no_size)"
    by (simp_all add: startup_def data_def)
  have d1: "startup no_date ! data = no_date"
    by (simp add: startup_def data_def load_data_same)
  have d2: "startup no_size ! data = no_size"
    by (simp add: startup_def data_def load_data_same)
  have f1: "first_missing [''pizza_category'', ''pizza_name'', ''total_price'', ''pizza_size'']
      no_date = None"
    by (simp add: first_missing_def no_date_def)
  have f2: "first_missing [''pizza_category'', ''pizza_name'', ''total_price'', ''pizza_size'']
      no_size = Some ''pizza_size''"
    by (simp add: first_missing_def no_size_def)
  have nd: "''order_date'' \<notin> set (columns no_date)"
    by (simp add: no_date_def)
  note t1 = missing_column_behaviour [OF l1, where A = float64 and u = default_ui and csv = no_date]
  note t2 = missing_column_behaviour [OF l2, where A = float64 and u = default_ui and csv = no_date]
  have "\<exists>out. fst (data_visualization float64 default_ui (startup no_date)) = Inr out
         \<and> fig_line out = None"
    using t1 nd by (simp add: d1 f1)
  moreover have "load_data no_date = no_date"
    using t1 nd by blast
  moreover have "fst (data_visualization float64 default_ui (startup no_size)) = Inl (KeyError ''pizza_size'')"
    using t2 by (simp add: d2 f2)
  ultimately show ?thesis
    using l1 by (simp add: d1 d2 f1 f2)
qed

text \<open>
  The claim of C4 fails on a dataset without the \<open>order_date\<close> column: it is loaded
  unchanged, and \<^verbatim>\<open>data_visualization\<close> returns its bar and pie charts and no line chart.
\<close>

theorem missing_order_date_proceeds:
  "''order_date'' \<notin> set (columns no_date)
   \<and> load_data no_date = no_date
   \<and> fst (data_visualization float64 default_ui (startup no_date)) =
       Inr \<lparr>fig_bar = [(''Margherita'', 30)], fig_pie = [(''M'', 30)], fig_line = None,
            dataframe = None,
            download_filtered = \<lparr>columns = columns no_date, rows = rows classic\<rparr>\<rparr>"
  by code_simp






text \<open>
  C7, as amended. The claim is that the per-size sums add up to the total sales. Both sides
  are machine sums of the same amounts taken in different orders, and on \<^verbatim>\<open>float64\<close> prices
  they can differ. The sums do add up whenever they are computed without rounding: for
  every view and every arithmetic whose \<^verbatim>\<open>Series.sum\<close> of the \<open>total_price\<close> column and whose
  grouped sum of every size group are the exact sums, the per-size sums exist, the total
  sales exist, and the former add up to the latter.
\<close>

theorem sales_by_size_total:
  assumes "''pizza_size'' \<in> set (columns view)" and "''total_price'' \<in> set (columns view)"
    and "series_sum A (map total_price (rows view)) = (\<Sum>r\<leftarrow>rows view. total_price r)"
    and "\<forall>k \<in> pizza_size ` set (rows view).
           group_reduce A (map total_price (filter (\<lambda>r. pizza_size r = k) (rows view)))
           = (\<Sum>r\<leftarrow>filter (\<lambda>r. pizza_size r = k) (rows view). total_price r)"
  shows "\<exists>m t. sales_by_size A view = Inr m \<and> total_sales A view = Inr t
       \<and> sum_list (map snd m) = t"
proof -
  let ?g = "groups_of pizza_size (rows view)"
  let ?m = "map (\<lambda>(k, rs). (k, group_reduce A (map total_price rs))) ?g"
  have res: "sales_by_size A view = Inr ?m"
    using assms(1,2) by (simp add: sales_by_size_def grouped)
  have tot: "total_sales A view = Inr (\<Sum>r\<leftarrow>rows view. total_price r)"
    using assms(2,3) by (simp add: total_sales_def getitem_def and_then_def)
  have "group_reduce A (map total_price rs) = sum_list (map total_price rs)"
    if "(k, rs) \<in> set ?g" for k rs
  proof -
    have k: "k \<in> pizza_size ` set (rows view)"
      and rs: "rs = filter (\<lambda>r. pizza_size r = k) (rows view)"
      using that unfolding groups_of_entry by blast+
    show ?thesis
      unfolding rs using assms(4) k by blast
  qed
  then have "map snd ?m = map (\<lambda>(k, g). sum_list (map total_price g)) ?g"
    by auto
  then have "sum_list (map snd ?m) = (\<Sum>(k, g)\<leftarrow>?g. sum_list (map total_price g))"
    by (rule arg_cong)
  also have "\<dots> = (\<Sum>r\<leftarrow>rows view. total_price r)"
    by (rule groups_of_sum)
  finally show ?thesis
    using res tot by blast
qed

theorem sales_by_size_total_witness:
  "''pizza_size'' \<in> set (columns tied) \<and> ''total_price'' \<in> set (columns tied)
   \<and> series_sum float64 (map total_price (rows tied)) = (\<Sum>r\<leftarrow>rows tied. total_price r)
   \<and> sales_by_size float64 tied = Inr [(''L'', 15), (''M'', 10), (''S'', 5)]
   \<and> total_sales float64 tied = Inr 30"
proof -
  have h: "''pizza_size'' \<in> set (columns tied)" "''total_price'' \<in> set (columns tied)"
    by (simp_all add: tied_def schema_def)
  have x: "series_sum float64 (map total_price (rows tied)) = (\<Sum>r\<leftarrow>rows tied. total_price r)"
    by code_simp
  have g: "\<forall>k \<in> pizza_size ` set (rows tied).
           group_reduce float64 (map total_price (filter (\<lambda>r. pizza_size r = k) (rows tied)))
           = (\<Sum>r\<leftarrow>filter (\<lambda>r. pizza_size r = k) (rows tied). total_price r)"
    by code_simp
  have ev: "sales_by_size float64 tied = Inr [(''L'', 15), (''M'', 10), (''S'', 5)]"
    by code_simp
  obtain m t where mt: "sales_by_size float64 tied = Inr m" "total_sales float64 tied = Inr t"
      "sum_list (map snd m) = t"
    using sales_by_size_total [OF h x g] by blast
  have "m = [(''L'', 15), (''M'', 10), (''S'', 5)]"
    using mt(1) ev by simp
  then have "t = 30"
    using mt(3) by simp
  then show ?thesis
    using h x ev mt(2) by simp
qed

text \<open>
  The claim of C7 fails on three rows with the amounts 14.5 and 17.95 for the size \<open>L\<close> and
  23.65 for the size \<open>M\<close>, listed as 14.5, 23.65, 17.95: the per-size sums are 32.45 and
  23.65 and add up, exactly and in \<^verbatim>\<open>float64\<close>, to 56.1, while the total sales are
  56.099999999999994, one unit in the last place below.
\<close>

theorem partition_rounds:
  "sales_by_size float64 (read_csv menu_cells) =
     Inr [(''L'', 2283465748565197 / 70368744177664), (''M'', 3328441599603507 / 140737488355328)]
   \<and> total_sales float64 (read_csv menu_cells) = Inr (7895373096733900 / 140737488355328)
   \<and> sum_list [2283465748565197 / 70368744177664, 3328441599603507 / 140737488355328 :: rat]
       = 7895373096733901 / 140737488355328
   \<and> float_sum [2283465748565197 / 70368744177664, 3328441599603507 / 140737488355328]
       = 7895373096733901 / 140737488355328
   \<and> (7895373096733901 / 140737488355328 :: rat) \<noteq> 7895373096733900 / 140737488355328"
  by code_simp

text \<open>
  C8. For every view, every grouping column with its key, every value column and every
  operation on the values of a group, the aggregate exists, each key that occurs in the
  view is the key of exactly one entry, a key that does not occur in the view is the key
  of no entry, and the view without rows gives the empty result, not an error.
\<close>

theorem aggregate_keys:
  fixes key :: "order_line_item \<Rightarrow> 'k::linorder"
  assumes "by \<in> set (columns view)" and "col \<in> set (columns view)"
  shows "\<exists>m. and_then (groupby view by key) (\<lambda>g. agg g col fld oper) = Inr m
       \<and> (\<forall>k. count_list (map fst m) k = (if k \<in> key ` set (rows view) then 1 else 0))
       \<and> (rows view = [] \<longrightarrow> m = [])"
proof -
  let ?m = "map (\<lambda>(k, rs). (k, oper (map fld rs))) (groups_of key (rows view))"
  have res: "and_then (groupby view by key) (\<lambda>g. agg g col fld oper) = Inr ?m"
    using assms by (simp add: grouped)
  have keys: "map fst ?m = map fst (groups_of key (rows view))"
    by (rule agg_keys)
  have "count_list (map fst ?m) k = (if k \<in> key ` set (rows view) then 1 else 0)" for k
    unfolding keys using groups_of_keys [of key "rows view"]
    by (simp add: count_list_distinct groups_of_distinct)
  moreover have "rows view = [] \<longrightarrow> ?m = []"
    by (simp add: groups_of_def)
  ultimately show ?thesis
    using res by blast
qed

theorem aggregate_keys_witness:
  "''pizza_name'' \<in> set (columns tied) \<and> ''unit_price'' \<in> set (columns tied)
   \<and> and_then (groupby tied ''pizza_name'' pizza_name)
        (\<lambda>g. agg g ''unit_price'' unit_price (series_mean float64))
      = Inr [(''Margherita'', Val (15 / 2)), (''Veggie Supreme'', Val 15)]
   \<and> count_list (map fst [(''Margherita'', Val (15 / 2)), (''Veggie Supreme'', Val 15)])
        ''Margherita'' = 1
   \<and> and_then (groupby empty_csv ''pizza_name'' pizza_name)
        (\<lambda>g. agg g ''unit_price'' unit_price (series_mean float64)) = Inr []"
proof -
  have h: "''pizza_name'' \<in> set (columns tied)" "''unit_price'' \<in> set (columns tied)"
    by (simp_all add: tied_def schema_def)
  have e: "''pizza_name'' \<in> set (columns empty_csv)" "''unit_price'' \<in> set (columns empty_csv)"
      "rows empty_csv = []"
    by (simp_all add: empty_csv_def schema_def)
  have ev: "and_then (groupby tied ''pizza_name'' pizza_name)
        (\<lambda>g. agg g ''unit_price'' unit_price (series_mean float64))
      = Inr [(''Margherita'', Val (15 / 2)), (''Veggie Supreme'', Val 15)]"
    and mem: "''Margherita'' \<in> pizza_name ` set (rows tied)"
    by code_simp+
  obtain m where m: "and_then (groupby tied ''pizza_name'' pizza_name)
        (\<lambda>g. agg g ''unit_price'' unit_price (series_mean float64)) = Inr m"
      "\<forall>k. count_list (map fst m) k = (if k \<in> pizza_name ` set (rows tied) then 1 else 0)"
    using aggregate_keys [OF h, of pizza_name unit_price "series_mean float64"] by blast
  have meq: "m = [(''Margherita'', Val (15 / 2)), (''Veggie Supreme'', Val 15)]"
    using m(1) ev by simp
  have c: "count_list (map fst [(''Margherita'', Val (15 / 2)), (''Veggie Supreme'', Val 15)])
        ''Margherita'' = 1"
    using m(2) mem unfolding meq by simp
  obtain m' where "and_then (groupby empty_csv ''pizza_name'' pizza_name)
        (\<lambda>g. agg g ''unit_price'' unit_price (series_mean float64)) = Inr m'" "rows empty_csv = [] \<longrightarrow> m' = []"
    using aggregate_keys [OF e(1,2), of pizza_name unit_price "series_mean float64"] by blast
  then have "and_then (groupby empty_csv ''pizza_name'' pizza_name)
        (\<lambda>g. agg g ''unit_price'' unit_price (series_mean float64)) = Inr []"
    using e(3) by simp
  then show ?thesis
    using h ev c by simp
qed

text \<open>
  C9. No run of a page changes a frame that existed before it: after any sequence of page
  runs, with any inputs of the user, every object of the initial heap is what it was, and
  in particular \<^verbatim>\<open>data\<close> still refers to the frame that \<^verbatim>\<open>load_data\<close> returned. The filtered
  and comparison views are new objects, and each of them is, at the end, a projection of
  the dataset: the assignment to the \<open>order_date\<close> column of \<^verbatim>\<open>filtered_data\<close> writes to the
  new object only, and writes the values it already has.
\<close>

theorem dataset_never_mutated:
  "take (length h) (run A events h) = h
   \<and> run A events (startup csv) ! data = load_data csv
   \<and> (\<forall>v \<in> set (drop (length h) (run A events h)). projection (h ! data) v)"
proof -
  obtain ys where ys: "run A events h = h @ ys" "\<forall>v \<in> set ys. projection (h ! data) v"
    using run_new [of A events h] by blast
  obtain zs where zs: "run A events (startup csv) = startup csv @ zs"
    using run_new [of A events "startup csv"] by blast
  have "run A events (startup csv) ! data = load_data csv"
    unfolding zs by (simp add: startup_def data_def)
  then show ?thesis
    using ys by simp
qed

theorem dataset_never_mutated_witness:
  "run float64 [(Data_Visualization, default_ui), (Data_Analysis, default_ui\<lparr>compare_picks := [1]\<rparr>),
        (Home, default_ui)] (startup sample)
     = [sample, classic, classic,
        \<lparr>columns = schema, rows = [sample_rows ! 1]\<rparr>]
   \<and> take (length (startup sample)) [sample, classic, classic,
        \<lparr>columns = schema, rows = [sample_rows ! 1]\<rparr>] = startup sample
   \<and> projection (startup sample ! data) classic"
proof -
  let ?ev = "[(Data_Visualization, default_ui), (Data_Analysis, default_ui\<lparr>compare_picks := [1]\<rparr>),
        (Home, default_ui)]"
  have ev: "run float64 ?ev (startup sample) = [sample, classic, classic,
        \<lparr>columns = schema, rows = [sample_rows ! 1]\<rparr>]"
    by code_simp
  have len: "length (startup sample) = 1"
    by (simp add: startup_def)
  note t = dataset_never_mutated [of "startup sample" float64 ?ev sample]
  have "take (length (startup sample)) [sample, classic, classic,
        \<lparr>columns = schema, rows = [sample_rows ! 1]\<rparr>] = startup sample"
    using t unfolding ev by blast
  moreover have "projection (startup sample ! data) classic"
    using t unfolding ev len by simp
  ultimately show ?thesis
    using ev by blast
qed

text \<open>
  C10. In the comparison of the multiselect, when no pizza is selected the block returns
  nothing and creates no frame, without an error; when some are selected, every row of
  the comparison view has a selected pizza name, and (the \<open>total_price\<close> column being
  there for the chart) the view is the dataset restricted to the selected names.
\<close>

theorem comparative_analysis_guard:
  assumes "data < length h" and "''pizza_name'' \<in> set (columns (h ! data))"
    and "compare = multiselect (unique (map pizza_name (rows (h ! data)))) (compare_picks u)"
  shows "(compare = [] \<longrightarrow> comparative_analysis u h = (Inr None, h))
       \<and> (compare \<noteq> [] \<longrightarrow>
            (\<forall>cd. fst (comparative_analysis u h) = Inr (Some cd) \<longrightarrow>
               (\<forall>r \<in> set (rows cd). pizza_name r \<in> set compare))
          \<and> (''total_price'' \<in> set (columns (h ! data)) \<longrightarrow>
               (\<exists>cd. comparative_analysis u h = (Inr (Some cd), h @ [cd])
                  \<and> rows cd = filter (\<lambda>r. pizza_name r \<in> set compare) (rows (h ! data)))))"
  unfolding comparative_analysis_run [OF assms(1,2)] assms(3) Let_def
  by auto

theorem comparative_analysis_guard_witness:
  "data < length [sample] \<and> ''pizza_name'' \<in> set (columns ([sample] ! data))
   \<and> multiselect (unique (map pizza_name (rows ([sample] ! data)))) (compare_picks default_ui) = []
   \<and> comparative_analysis default_ui [sample] = (Inr None, [sample])
   \<and> multiselect (unique (map pizza_name (rows ([sample] ! data))))
        (compare_picks (default_ui\<lparr>compare_picks := [1]\<rparr>)) = [''Veggie Supreme'']
   \<and> (\<exists>cd. comparative_analysis (default_ui\<lparr>compare_picks := [1]\<rparr>) [sample]
          = (Inr (Some cd), [sample] @ [cd])
        \<and> rows cd = filter (\<lambda>r. pizza_name r \<in> set [''Veggie Supreme'']) (rows ([sample] ! data)))"
proof -
  have h: "data < length [sample]" "''pizza_name'' \<in> set (columns ([sample] ! data))"
      "''total_price'' \<in> set (columns ([sample] ! data))"
    by (simp_all add: data_def sample_def schema_def)
  have c0: "[] = multiselect (unique (map pizza_name (rows ([sample] ! data))))
      (compare_picks default_ui)"
    and c1: "[''Veggie Supreme''] = multiselect (unique (map pizza_name (rows ([sample] ! data))))
      (compare_picks (default_ui\<lparr>compare_picks := [1]\<rparr>))"
    by code_simp+
  note t0 = comparative_analysis_guard [OF h(1,2) c0]
  note t1 = comparative_analysis_guard [OF h(1,2) c1]
  have "comparative_analysis default_ui [sample] = (Inr None, [sample])"
    using t0 by blast
  moreover have "\<exists>cd. comparative_analysis (default_ui\<lparr>compare_picks := [1]\<rparr>) [sample]
          = (Inr (Some cd), [sample] @ [cd])
        \<and> rows cd = filter (\<lambda>r. pizza_name r \<in> set [''Veggie Supreme'']) (rows ([sample] ! data))"
    using t1 h(3) by blast
  ultimately show ?thesis
    using h(1,2) c0 [symmetric] c1 [symmetric] by blast
qed

end
